theory Spec2Isabelle
  imports Main
begin

section \<open>Cell values and their text\<close>

text \<open>
  A cell of a loaded workbook holds \<open>None\<close>, a string, a number or a boolean.
  Integers stand for the numbers here; floating-point and temporal values are left out
  of the model.
\<close>

datatype pyvalue = PyNone | PyStr string | PyInt int | PyBool bool

definition digit_char :: "nat \<Rightarrow> char" where
  "digit_char d = ''0123456789'' ! d"

function str_nat :: "nat \<Rightarrow> string" where
  "str_nat n = (if n < 10 then [digit_char n] else str_nat (n div 10) @ [digit_char (n mod 10)])"
  by pat_completeness auto
termination
  by (relation "measure id") auto

declare str_nat.simps [simp del]

definition str_int :: "int \<Rightarrow> string" where
  "str_int i = (if i < 0 then CHR ''-'' # str_nat (nat (- i)) else str_nat (nat i))"

text \<open>Python's \<open>str(cell.value)\<close>.\<close>

fun py_str :: "pyvalue \<Rightarrow> string" where
  "py_str PyNone = ''None''"
| "py_str (PyStr s) = s"
| "py_str (PyInt i) = str_int i"
| "py_str (PyBool b) = (if b then ''True'' else ''False'')"

section \<open>The workbook objects the script reads\<close>

text \<open>The data type tags of \<open>openpyxl.cell.cell\<close> that the script imports.\<close>

definition TYPE_NULL :: string where "TYPE_NULL = ''n''"
definition TYPE_NUMERIC :: string where "TYPE_NUMERIC = ''n''"
definition TYPE_STRING :: string where "TYPE_STRING = ''s''"
definition TYPE_ERROR :: string where "TYPE_ERROR = ''e''"
definition TYPE_FORMULA :: string where "TYPE_FORMULA = ''f''"
definition TYPE_FORMULA_CACHE_STRING :: string where "TYPE_FORMULA_CACHE_STRING = ''str''"

record cell =
  row :: nat
  column :: nat
  cell_value :: pyvalue
  data_type :: string

definition letter_char :: "nat \<Rightarrow> char" where
  "letter_char k = ''ABCDEFGHIJKLMNOPQRSTUVWXYZ'' ! k"

text \<open>
  The column letters of a 1-based column index (A, ..., Z, AA, AB, ...). The script
  only asks for columns from 1 upwards.
\<close>

function get_column_letter :: "nat \<Rightarrow> string" where
  "get_column_letter n =
     (if n = 0 then [] else get_column_letter ((n - 1) div 26) @ [letter_char ((n - 1) mod 26)])"
  by pat_completeness auto
termination
  by (relation "measure id") auto

declare get_column_letter.simps [simp del]

definition column_letter :: "cell \<Rightarrow> string" where
  "column_letter c = get_column_letter (column c)"

text \<open>\<open>cell.coordinate\<close>: the column letters followed by the row number.\<close>

definition coordinate :: "cell \<Rightarrow> string" where
  "coordinate c = column_letter c @ str_nat (row c)"

record cell_range =
  min_col :: nat
  min_row :: nat
  max_col :: nat
  max_row :: nat

text \<open>
  \<open>cell.coordinate in merged_range\<close>: the coordinate lies within the bounds of the
  range.
\<close>

definition range_contains :: "cell_range \<Rightarrow> cell \<Rightarrow> bool" where
  "range_contains rng c =
     (min_row rng \<le> row c \<and> row c \<le> max_row rng \<and> min_col rng \<le> column c \<and> column c \<le> max_col rng)"

text \<open>
  What a loop over a merged range of a sheet receives: nothing. The range class of the
  library does not iterate over the cells of the range; its iteration is over attributes
  of the range object, for use as a dictionary, and for the merged ranges that a sheet
  keeps it yields no item at all. So the body of such a loop is never run.

  The body of the loop in \<open>is_cell_hidden\<close> reads a column letter and a row from
  its item. An item is modelled as either a cell, which has both, or an attribute pair,
  which has neither: reading one of them from a pair raises \<open>AttributeError\<close>.
\<close>

datatype error = KeyError string | AttributeError string

datatype range_item = Cell_Item nat nat | Pair_Item string nat

definition range_iter :: "cell_range \<Rightarrow> range_item list" where
  "range_iter rng = []"

fun item_column_letter :: "range_item \<Rightarrow> error + string" where
  "item_column_letter (Cell_Item r c) = Inr (get_column_letter c)"
| "item_column_letter (Pair_Item name v) = Inl (AttributeError ''column_letter'')"

fun item_row :: "range_item \<Rightarrow> error + nat" where
  "item_row (Cell_Item r c) = Inr r"
| "item_row (Pair_Item name v) = Inl (AttributeError ''row'')"

text \<open>
  A worksheet: its title, its state, the dictionary of stored cells keyed by
  (row, column) with the value and the data type of each, the merged ranges in the order
  the sheet lists them, and the column letters and row numbers whose dimension is
  flagged hidden.
\<close>

record worksheet =
  title :: string
  sheet_state :: string
  cells :: "((nat \<times> nat) \<times> (pyvalue \<times> string)) list"
  merged_cells :: "cell_range list"
  hidden_columns :: "string list"
  hidden_rows :: "nat list"

definition column_hidden :: "worksheet \<Rightarrow> string \<Rightarrow> bool" where
  "column_hidden ws col = (col \<in> set (hidden_columns ws))"

definition row_hidden :: "worksheet \<Rightarrow> nat \<Rightarrow> bool" where
  "row_hidden ws r = (r \<in> set (hidden_rows ws))"

text \<open>
  \<open>worksheet.max_row\<close> and \<open>worksheet.max_column\<close>: the largest row and column
  among the stored cells, 1 for a sheet that stores none.
\<close>

definition ws_max_row :: "worksheet \<Rightarrow> nat" where
  "ws_max_row ws = (if cells ws = [] then 1 else Max (set (map (\<lambda>kv. fst (fst kv)) (cells ws))))"

definition ws_max_column :: "worksheet \<Rightarrow> nat" where
  "ws_max_column ws = (if cells ws = [] then 1 else Max (set (map (\<lambda>kv. snd (fst kv)) (cells ws))))"

text \<open>
  \<open>worksheet.cell(row, col)\<close>: the stored cell at the coordinate; where none is
  stored, a new cell without a value is created, stored in the sheet and returned. The
  sheet comes back with the cell it may have gained.
\<close>

definition ws_cell :: "worksheet \<Rightarrow> nat \<Rightarrow> nat \<Rightarrow> cell \<times> worksheet" where
  "ws_cell ws r c =
     (case map_of (cells ws) (r, c) of
        Some (v, t) \<Rightarrow> (\<lparr>row = r, column = c, cell_value = v, data_type = t\<rparr>, ws)
      | None \<Rightarrow>
          (\<lparr>row = r, column = c, cell_value = PyNone, data_type = TYPE_NULL\<rparr>,
           ws\<lparr>cells := cells ws @ [((r, c), (PyNone, TYPE_NULL))]\<rparr>))"

section \<open>diffxl: visibility\<close>

definition is_worksheet_hidden :: "worksheet \<Rightarrow> bool" where
  "is_worksheet_hidden ws = (sheet_state ws \<in> set [''hidden'', ''veryHidden''])"

text \<open>
  The inner loop of \<open>is_cell_hidden\<close> (lines 46 to 54) over the items that the
  merged range yields: the column letter and the row are read from the item, the
  function returns \<open>True\<close> at the first item whose column or row is hidden, and
  \<open>False\<close> when the items run out.
\<close>

fun any_merged_cell_hidden :: "worksheet \<Rightarrow> range_item list \<Rightarrow> error + bool" where
  "any_merged_cell_hidden ws [] = Inr False"
| "any_merged_cell_hidden ws (merged_cell # rest) =
     (case item_column_letter merged_cell of
        Inl e \<Rightarrow> Inl e
      | Inr col \<Rightarrow>
          (case item_row merged_cell of
             Inl e \<Rightarrow> Inl e
           | Inr r \<Rightarrow>
               if column_hidden ws col \<or> row_hidden ws r then Inr True
               else any_merged_cell_hidden ws rest))"

text \<open>
  The outer loop (lines 43 to 55): the first merged range that contains the coordinate
  decides; later ranges are not looked at.
\<close>

fun scan_merged_ranges :: "worksheet \<Rightarrow> cell \<Rightarrow> cell_range list \<Rightarrow> error + bool" where
  "scan_merged_ranges ws c [] = Inr False"
| "scan_merged_ranges ws c (merged_range # rest) =
     (if range_contains merged_range c then any_merged_cell_hidden ws (range_iter merged_range)
      else scan_merged_ranges ws c rest)"

definition is_cell_hidden :: "worksheet \<Rightarrow> cell \<Rightarrow> error + bool" where
  "is_cell_hidden ws c = scan_merged_ranges ws c (merged_cells ws)"

section \<open>diffxl: the value a cell is compared by\<close>

text \<open>
  Lines 125 to 147 of \<open>main\<close>, the same for either sheet: the text of the value, then
  the two overrides in the order of the source. An error raised by the visibility check
  would end the run.
\<close>

definition masked_types :: "string list" where
  "masked_types = [TYPE_NULL, TYPE_ERROR, TYPE_FORMULA, TYPE_FORMULA_CACHE_STRING]"

definition masked_value :: "worksheet \<Rightarrow> cell \<Rightarrow> error + string" where
  "masked_value ws c =
     (case is_cell_hidden ws c of
        Inl e \<Rightarrow> Inl e
      | Inr hidden \<Rightarrow>
          Inr (let v = py_str (cell_value c);
                   v = (if hidden then [] else v);
                   v = (if data_type c \<in> set masked_types then [] else v)
               in v))"

section \<open>diffxl: comparing two workbooks\<close>

text \<open>An entry of the \<open>differences\<close> list, with the keys of the dictionary as fields.\<close>

record difference =
  worksheet_name :: string
  cell_address :: string
  value1 :: string
  value2 :: string

text \<open>
  The body of the two cell loops (lines 123 to 156) at one row and column. Both sheets
  may gain a cell from the lookup, so they are passed on with the list.
\<close>

definition compare_cell ::
  "nat \<Rightarrow> nat \<Rightarrow> worksheet \<times> worksheet \<times> difference list \<Rightarrow>
     error + (worksheet \<times> worksheet \<times> difference list)" where
  "compare_cell r c st =
     (case st of (worksheet1, worksheet2, differences) \<Rightarrow>
        (case ws_cell worksheet1 r c of (cell1, worksheet1') \<Rightarrow>
        (case ws_cell worksheet2 r c of (cell2, worksheet2') \<Rightarrow>
           (case masked_value worksheet1' cell1 of
              Inl e \<Rightarrow> Inl e
            | Inr v1 \<Rightarrow>
           (case masked_value worksheet2' cell2 of
              Inl e \<Rightarrow> Inl e
            | Inr v2 \<Rightarrow>
                Inr (worksheet1', worksheet2',
                     if v1 \<noteq> v2
                     then differences @
                       [\<lparr>worksheet_name = title worksheet1', cell_address = coordinate cell1,
                         value1 = v1, value2 = v2\<rparr>]
                     else differences))))))"

text \<open>A \<open>for\<close> loop whose body may raise: the first error ends it.\<close>

fun for_each :: "('a \<Rightarrow> 's \<Rightarrow> error + 's) \<Rightarrow> 'a list \<Rightarrow> 's \<Rightarrow> error + 's" where
  "for_each body [] s = Inr s"
| "for_each body (x # xs) s =
     (case body x s of Inl e \<Rightarrow> Inl e | Inr s' \<Rightarrow> for_each body xs s')"

text \<open>
  Lines 116 to 156 for one pair of sheets: the bounds are read once, before the loops;
  rows from 1 to \<open>max_row\<close>, and within a row the columns from 1 to \<open>max_col\<close>.
\<close>

definition compare_sheets ::
  "worksheet \<Rightarrow> worksheet \<Rightarrow> difference list \<Rightarrow>
     error + (worksheet \<times> worksheet \<times> difference list)" where
  "compare_sheets worksheet1 worksheet2 differences =
     (let max_r = max (ws_max_row worksheet1) (ws_max_row worksheet2);
          max_c = max (ws_max_column worksheet1) (ws_max_column worksheet2)
      in for_each (\<lambda>r. for_each (\<lambda>c. compare_cell r c) [1..<max_c + 1]) [1..<max_r + 1]
           (worksheet1, worksheet2, differences))"

text \<open>
  A workbook is the list of its worksheets in their declared order. \<open>workbook[name]\<close>
  is the first sheet with that title and raises \<open>KeyError\<close> when there is none.
\<close>

type_synonym workbook = "worksheet list"

definition sheetnames :: "workbook \<Rightarrow> string list" where
  "sheetnames wb = map title wb"

definition wb_get :: "workbook \<Rightarrow> string \<Rightarrow> error + worksheet" where
  "wb_get wb name =
     (case find (\<lambda>ws. title ws = name) wb of None \<Rightarrow> Inl (KeyError name) | Some ws \<Rightarrow> Inr ws)"

text \<open>
  The script works on the sheet objects of the workbook in place. In the model the
  sheet that a comparison leaves behind is stored back in the workbook, at the place
  \<open>workbook[name]\<close> took it from.
\<close>

fun wb_put :: "workbook \<Rightarrow> string \<Rightarrow> worksheet \<Rightarrow> workbook" where
  "wb_put [] name ws' = []"
| "wb_put (ws # rest) name ws' = (if title ws = name then ws' # rest else ws # wb_put rest name ws')"

text \<open>The loop over the sheet names of the first workbook (lines 99 to 156).\<close>

fun compare_sheetnames ::
  "string list \<Rightarrow> workbook \<times> workbook \<times> difference list \<Rightarrow> error + (workbook \<times> workbook \<times> difference list)" where
  "compare_sheetnames [] st = Inr st"
| "compare_sheetnames (sheetname # rest) (workbook1, workbook2, differences) =
     (if sheetname \<notin> set (sheetnames workbook2)
      then compare_sheetnames rest (workbook1, workbook2, differences)
      else
        (case wb_get workbook1 sheetname of
           Inl e \<Rightarrow> Inl e
         | Inr worksheet1 \<Rightarrow>
        (case wb_get workbook2 sheetname of
           Inl e \<Rightarrow> Inl e
         | Inr worksheet2 \<Rightarrow>
             if is_worksheet_hidden worksheet1
             then compare_sheetnames rest (workbook1, workbook2, differences)
             else if is_worksheet_hidden worksheet2
             then compare_sheetnames rest (workbook1, workbook2, differences)
             else
               (case compare_sheets worksheet1 worksheet2 differences of
                  Inl e \<Rightarrow> Inl e
                | Inr (worksheet1', worksheet2', differences') \<Rightarrow>
                    compare_sheetnames rest
                      (wb_put workbook1 sheetname worksheet1',
                       wb_put workbook2 sheetname worksheet2', differences')))))"

text \<open>
  Lines 89 to 156 for one target: the list starts empty and the names are those of the
  first workbook, read when the loop starts.
\<close>

definition compare_target ::
  "workbook \<Rightarrow> workbook \<Rightarrow> error + (workbook \<times> workbook \<times> difference list)" where
  "compare_target workbook1 workbook2 =
     compare_sheetnames (sheetnames workbook1) (workbook1, workbook2, [])"

section \<open>diffxl: the differences workbook\<close>

text \<open>
  The workbook that is saved: its file name, the title of its sheet and the cells
  written to the sheet, by (row, column).
\<close>

record artifact =
  file_name :: string
  sheet_title :: string
  written :: "(nat \<times> nat) \<rightharpoonup> string"

text \<open>One round of the loop over \<open>enumerate(differences, 2)\<close> (lines 175 to 179).\<close>

definition write_difference ::
  "nat \<times> difference \<Rightarrow> ((nat \<times> nat) \<rightharpoonup> string) \<Rightarrow> ((nat \<times> nat) \<rightharpoonup> string)" where
  "write_difference rd sheet =
     (case rd of (r, d) \<Rightarrow>
        sheet((r, 1) \<mapsto> worksheet_name d, (r, 2) \<mapsto> cell_address d,
              (r, 3) \<mapsto> value1 d, (r, 4) \<mapsto> value2 d))"

text \<open>
  Lines 161 to 187: nothing is saved for an empty list. The stems are those of the two
  paths.
\<close>

definition write_report :: "string \<Rightarrow> string \<Rightarrow> difference list \<Rightarrow> artifact option" where
  "write_report stem1 stem2 differences =
     (if differences \<noteq> []
      then Some
        \<lparr>file_name = ''diff_'' @ stem1 @ ''_'' @ stem2 @ ''.xlsx'',
         sheet_title = ''Differences'',
         written =
           fold write_difference (enumerate 2 differences)
             (Map.empty((1, 1) \<mapsto> ''Sheet'', (1, 2) \<mapsto> ''Cell'',
                        (1, 3) \<mapsto> stem1 @ '' Value'', (1, 4) \<mapsto> stem2 @ '' Value''))\<rparr>
      else None)"

text \<open>
  The loop over the targets (lines 88 to 187). A target is the stem of its path and the
  workbook loaded from it. The first workbook is loaded once and lives through all the
  rounds; the second is dropped at the end of its round. The result is how the loop
  ends (with the first workbook as it leaves it, or with the error that stopped it) and
  the workbooks saved until then, in the order of saving.
\<close>

record target =
  target_stem :: string
  target_workbook :: workbook

fun main_targets ::
  "string \<Rightarrow> target list \<Rightarrow> workbook \<times> artifact list \<Rightarrow> (error + workbook) \<times> artifact list" where
  "main_targets stem1 [] (workbook1, saved) = (Inr workbook1, saved)"
| "main_targets stem1 (t # rest) (workbook1, saved) =
     (case compare_target workbook1 (target_workbook t) of
        Inl e \<Rightarrow> (Inl e, saved)
      | Inr (workbook1', workbook2', differences) \<Rightarrow>
          (case write_report stem1 (target_stem t) differences of
             Some a \<Rightarrow> main_targets stem1 rest (workbook1', saved @ [a])
           | None \<Rightarrow> main_targets stem1 rest (workbook1', saved)))"

definition main :: "string \<Rightarrow> workbook \<Rightarrow> target list \<Rightarrow> (error + workbook) \<times> artifact list" where
  "main stem1 workbook1 targets = main_targets stem1 targets (workbook1, [])"

section \<open>What the comparison computes\<close>

text \<open>
  The definitions of this section are not steps of the script: they state its results
  and are what the theorems below compare the loops with.
\<close>

text \<open>The cell that \<open>worksheet.cell(row, col)\<close> returns.\<close>

definition cell_at :: "worksheet \<Rightarrow> nat \<Rightarrow> nat \<Rightarrow> cell" where
  "cell_at ws r c = fst (ws_cell ws r c)"

text \<open>
  Two states of one sheet object: the second has the title, state, merged ranges and
  hidden dimensions of the first, and every lookup returns the same cell in both. The
  cells that the lookups create keep a sheet in this relation to what it was.
\<close>

definition same_view :: "worksheet \<Rightarrow> worksheet \<Rightarrow> bool" where
  "same_view ws ws' =
     (title ws' = title ws \<and> sheet_state ws' = sheet_state ws \<and>
      merged_cells ws' = merged_cells ws \<and> hidden_columns ws' = hidden_columns ws \<and>
      hidden_rows ws' = hidden_rows ws \<and> (\<forall>r c. cell_at ws' r c = cell_at ws r c))"

text \<open>The text of a cell after the override by data type alone.\<close>

definition cell_text :: "cell \<Rightarrow> string" where
  "cell_text c = (if data_type c \<in> set masked_types then [] else py_str (cell_value c))"

text \<open>Whether the two sheets differ at a (row, column), and the entry reported there.\<close>

definition cell_differs :: "worksheet \<Rightarrow> worksheet \<Rightarrow> nat \<times> nat \<Rightarrow> bool" where
  "cell_differs ws1 ws2 rc =
     (cell_text (cell_at ws1 (fst rc) (snd rc)) \<noteq> cell_text (cell_at ws2 (fst rc) (snd rc)))"

definition difference_at :: "worksheet \<Rightarrow> worksheet \<Rightarrow> nat \<times> nat \<Rightarrow> difference" where
  "difference_at ws1 ws2 rc =
     \<lparr>worksheet_name = title ws1,
      cell_address = coordinate (cell_at ws1 (fst rc) (snd rc)),
      value1 = cell_text (cell_at ws1 (fst rc) (snd rc)),
      value2 = cell_text (cell_at ws2 (fst rc) (snd rc))\<rparr>"

text \<open>The coordinates with row in 1..R and column in 1..C, row by row.\<close>

definition grid :: "nat \<Rightarrow> nat \<Rightarrow> (nat \<times> nat) list" where
  "grid R C = concat (map (\<lambda>r. map (\<lambda>c. (r, c)) [1..<C + 1]) [1..<R + 1])"

text \<open>A visible sheet without merged ranges or hidden dimensions, for the examples.\<close>

definition plain_sheet :: "string \<Rightarrow> ((nat \<times> nat) \<times> (pyvalue \<times> string)) list \<Rightarrow> worksheet" where
  "plain_sheet name cs =
     \<lparr>title = name, sheet_state = ''visible'', cells = cs, merged_cells = [],
      hidden_columns = [], hidden_rows = []\<rparr>"

text \<open>
  A sheet with merged ranges for the examples: A1:A3, C1:D1, E1:F1 and G1:H1 are
  merged; their first cells hold the text "X", the number 2024, a formula and the empty
  string; B1 holds the text "Y"; row 2 and column B are hidden.
\<close>

definition merged_sheet :: worksheet where
  "merged_sheet =
     \<lparr>title = ''Sheet1'', sheet_state = ''visible'',
      cells = [((1, 1), (PyStr ''X'', ''s'')), ((1, 2), (PyStr ''Y'', ''s'')),
               ((1, 3), (PyInt 2024, ''n'')), ((1, 4), (PyNone, ''n'')),
               ((1, 5), (PyStr ''=A1'', ''f'')), ((1, 6), (PyNone, ''n'')),
               ((1, 7), (PyStr [], ''s'')), ((1, 8), (PyNone, ''n'')),
               ((2, 1), (PyNone, ''n'')), ((3, 1), (PyNone, ''n''))],
      merged_cells = [\<lparr>min_col = 1, min_row = 1, max_col = 1, max_row = 3\<rparr>,
                      \<lparr>min_col = 3, min_row = 1, max_col = 4, max_row = 1\<rparr>,
                      \<lparr>min_col = 5, min_row = 1, max_col = 6, max_row = 1\<rparr>,
                      \<lparr>min_col = 7, min_row = 1, max_col = 8, max_row = 1\<rparr>],
      hidden_columns = [''B''], hidden_rows = [2]\<rparr>"

text \<open>The coordinates visited for a pair of sheets, and the entries of the pair.\<close>

definition sheet_grid :: "worksheet \<Rightarrow> worksheet \<Rightarrow> (nat \<times> nat) list" where
  "sheet_grid ws1 ws2 =
     grid (max (ws_max_row ws1) (ws_max_row ws2)) (max (ws_max_column ws1) (ws_max_column ws2))"

definition sheet_differences :: "worksheet \<Rightarrow> worksheet \<Rightarrow> difference list" where
  "sheet_differences ws1 ws2 =
     map (difference_at ws1 ws2) (filter (cell_differs ws1 ws2) (sheet_grid ws1 ws2))"

text \<open>
  For a sheet name of the first workbook, the pair of sheets that is compared: the
  first sheet of that title in either workbook, when both workbooks have one and
  neither of the two is hidden.
\<close>

definition matched_pair :: "workbook \<Rightarrow> workbook \<Rightarrow> string \<Rightarrow> (worksheet \<times> worksheet) option" where
  "matched_pair wb1 wb2 name =
     (case find (\<lambda>ws. title ws = name) wb1 of
        None \<Rightarrow> None
      | Some ws1 \<Rightarrow>
          (case find (\<lambda>ws. title ws = name) wb2 of
             None \<Rightarrow> None
           | Some ws2 \<Rightarrow>
               if is_worksheet_hidden ws1 \<or> is_worksheet_hidden ws2 then None else Some (ws1, ws2)))"

text \<open>The pairs compared for a target, in the sheet order of the first workbook.\<close>

definition target_pairs :: "workbook \<Rightarrow> workbook \<Rightarrow> (worksheet \<times> worksheet) list" where
  "target_pairs wb1 wb2 = List.map_filter (matched_pair wb1 wb2) (sheetnames wb1)"

definition target_differences :: "workbook \<Rightarrow> workbook \<Rightarrow> difference list" where
  "target_differences wb1 wb2 =
     concat (map (\<lambda>p. sheet_differences (fst p) (snd p)) (target_pairs wb1 wb2))"

text \<open>The order of the coordinates: by row, then by column.\<close>

definition coordinate_less :: "nat \<times> nat \<Rightarrow> nat \<times> nat \<Rightarrow> bool" where
  "coordinate_less a b = (fst a < fst b \<or> (fst a = fst b \<and> snd a < snd b))"

text \<open>
  Two workbooks for the examples. The first has "Sheet1" (the sheet with merged
  ranges), a sheet "Only" that the second lacks, a hidden sheet "Hid" and a sheet
  "Data"; the second has a visible "Hid", "Data" and "Sheet1", in another order. The
  two sheets "Sheet1" differ at A1 (the head of a merged range with a hidden row), at B1
  (in a hidden column) and at C1 (two numbers); the two sheets "Data" differ at A2 and
  at B2, which only the second stores.
\<close>

definition example_base :: workbook where
  "example_base =
     [merged_sheet,
      plain_sheet ''Only'' [((1, 1), (PyStr ''a'', ''s''))],
      (plain_sheet ''Hid'' [((1, 1), (PyStr ''p'', ''s''))])\<lparr>sheet_state := ''hidden''\<rparr>,
      plain_sheet ''Data'' [((1, 1), (PyStr ''a'', ''s'')), ((2, 1), (PyStr ''b'', ''s''))]]"

definition example_target :: workbook where
  "example_target =
     [plain_sheet ''Hid'' [((1, 1), (PyStr ''q'', ''s''))],
      plain_sheet ''Data''
        [((1, 1), (PyStr ''a'', ''s'')), ((2, 1), (PyStr ''c'', ''s'')), ((2, 2), (PyStr ''d'', ''s''))],
      merged_sheet\<lparr>cells :=
        [((1, 1), (PyStr ''W'', ''s'')), ((1, 2), (PyStr ''Z'', ''s'')),
         ((1, 3), (PyInt 2025, ''n'')), ((1, 4), (PyNone, ''n'')),
         ((1, 5), (PyStr ''=A1'', ''f'')), ((1, 6), (PyNone, ''n'')),
         ((1, 7), (PyStr [], ''s'')), ((1, 8), (PyNone, ''n'')),
         ((2, 1), (PyNone, ''n'')), ((3, 1), (PyNone, ''n''))]\<rparr>]"

section \<open>Lookups and sheet states\<close>

lemma same_view_refl: "same_view ws ws"
  by (simp add: same_view_def)

lemma same_view_trans: "same_view a b \<Longrightarrow> same_view b c \<Longrightarrow> same_view a c"
  by (simp add: same_view_def)

lemma cell_at_row_column: "row (cell_at ws r c) = r \<and> column (cell_at ws r c) = c"
  by (simp add: cell_at_def ws_cell_def split: option.splits prod.splits)

lemma same_view_touch: "same_view ws (snd (ws_cell ws r c))"
proof (cases "map_of (cells ws) (r, c)")
  case None
  have "cell_at (ws\<lparr>cells := cells ws @ [((r, c), (PyNone, TYPE_NULL))]\<rparr>) r' c' = cell_at ws r' c'" for r' c'
    using None by (cases "(r', c') = (r, c)") (auto simp: cell_at_def ws_cell_def map_add_def split: option.splits)
  then show ?thesis using None by (simp add: same_view_def ws_cell_def)
next
  case (Some a)
  then show ?thesis by (cases a) (simp add: ws_cell_def same_view_refl)
qed

lemma same_view_cell_at: "same_view ws w \<Longrightarrow> cell_at w r c = cell_at ws r c"
  by (simp add: same_view_def)

section \<open>The visibility check finds no hidden cell\<close>

lemma any_merged_cell_hidden_range_iter: "any_merged_cell_hidden ws (range_iter rng) = Inr False"
  by (simp add: range_iter_def)

lemma scan_merged_ranges_result: "scan_merged_ranges ws c rs = Inr False"
  by (induction rs) (simp_all add: any_merged_cell_hidden_range_iter)

lemma is_cell_hidden_result: "is_cell_hidden ws c = Inr False"
  by (simp add: is_cell_hidden_def scan_merged_ranges_result)

lemma masked_value_result: "masked_value ws c = Inr (cell_text c)"
  by (simp add: masked_value_def is_cell_hidden_result cell_text_def)

section \<open>The cell loops\<close>

lemma compare_cell_step:
  assumes "same_view ws1 w1" "same_view ws2 w2"
  shows "compare_cell r c (w1, w2, ds) =
           Inr (snd (ws_cell w1 r c), snd (ws_cell w2 r c),
                ds @ map (difference_at ws1 ws2) (filter (cell_differs ws1 ws2) [(r, c)]))"
proof -
  have v1: "same_view ws1 (snd (ws_cell w1 r c))"
    using assms(1) same_view_touch same_view_trans by blast
  have c1: "fst (ws_cell w1 r c) = cell_at ws1 r c"
    using same_view_cell_at [OF assms(1), of r c] by (simp add: cell_at_def)
  have c2: "fst (ws_cell w2 r c) = cell_at ws2 r c"
    using same_view_cell_at [OF assms(2), of r c] by (simp add: cell_at_def)
  have t: "title (snd (ws_cell w1 r c)) = title ws1"
    using v1 by (simp add: same_view_def)
  obtain a1 b1 where p1: "ws_cell w1 r c = (a1, b1)" by (cases "ws_cell w1 r c")
  obtain a2 b2 where p2: "ws_cell w2 r c = (a2, b2)" by (cases "ws_cell w2 r c")
  show ?thesis
    using c1 c2 t p1 p2
    by (simp add: compare_cell_def masked_value_result cell_differs_def difference_at_def)
qed

lemma compare_columns:
  assumes "same_view ws1 w1" "same_view ws2 w2"
  shows "\<exists>w1' w2'. for_each (\<lambda>c. compare_cell r c) cols (w1, w2, ds) =
           Inr (w1', w2', ds @ map (difference_at ws1 ws2)
                  (filter (cell_differs ws1 ws2) (map (\<lambda>c. (r, c)) cols)))
         \<and> same_view ws1 w1' \<and> same_view ws2 w2'"
  using assms
proof (induction cols arbitrary: w1 w2 ds)
  case Nil
  then show ?case by simp
next
  case (Cons c cols)
  let ?d = "ds @ map (difference_at ws1 ws2) (filter (cell_differs ws1 ws2) [(r, c)])"
  have v1: "same_view ws1 (snd (ws_cell w1 r c))"
    using Cons.prems(1) same_view_touch same_view_trans by blast
  have v2: "same_view ws2 (snd (ws_cell w2 r c))"
    using Cons.prems(2) same_view_touch same_view_trans by blast
  have step: "for_each (\<lambda>c. compare_cell r c) (c # cols) (w1, w2, ds) =
      for_each (\<lambda>c. compare_cell r c) cols (snd (ws_cell w1 r c), snd (ws_cell w2 r c), ?d)"
    by (simp add: compare_cell_step [OF Cons.prems])
  have app: "?d @ map (difference_at ws1 ws2) (filter (cell_differs ws1 ws2) (map (\<lambda>c. (r, c)) cols)) =
      ds @ map (difference_at ws1 ws2) (filter (cell_differs ws1 ws2) (map (\<lambda>c. (r, c)) (c # cols)))"
    by simp
  show ?case
    unfolding step app [symmetric]
    by (rule Cons.IH [OF v1 v2])
qed

lemma compare_rows:
  assumes "same_view ws1 w1" "same_view ws2 w2"
  shows "\<exists>w1' w2'. for_each (\<lambda>r. for_each (\<lambda>c. compare_cell r c) cols) rows (w1, w2, ds) =
           Inr (w1', w2', ds @ map (difference_at ws1 ws2)
                  (filter (cell_differs ws1 ws2) (concat (map (\<lambda>r. map (\<lambda>c. (r, c)) cols) rows))))
         \<and> same_view ws1 w1' \<and> same_view ws2 w2'"
  using assms
proof (induction rows arbitrary: w1 w2 ds)
  case Nil
  then show ?case by simp
next
  case (Cons r rows)
  let ?d = "ds @ map (difference_at ws1 ws2) (filter (cell_differs ws1 ws2) (map (\<lambda>c. (r, c)) cols))"
  obtain u1 u2 where row: "for_each (\<lambda>c. compare_cell r c) cols (w1, w2, ds) = Inr (u1, u2, ?d)"
    and u: "same_view ws1 u1" "same_view ws2 u2"
    using compare_columns [OF Cons.prems, of r cols ds] by blast
  have step: "for_each (\<lambda>r. for_each (\<lambda>c. compare_cell r c) cols) (r # rows) (w1, w2, ds) =
      for_each (\<lambda>r. for_each (\<lambda>c. compare_cell r c) cols) rows (u1, u2, ?d)"
    by (simp add: row)
  have app: "?d @ map (difference_at ws1 ws2)
        (filter (cell_differs ws1 ws2) (concat (map (\<lambda>r. map (\<lambda>c. (r, c)) cols) rows))) =
      ds @ map (difference_at ws1 ws2)
        (filter (cell_differs ws1 ws2) (concat (map (\<lambda>r. map (\<lambda>c. (r, c)) cols) (r # rows))))"
    by simp
  show ?case
    unfolding step app [symmetric]
    by (rule Cons.IH [OF u])
qed

lemma compare_sheets_result:
  assumes "same_view ws1 w1" "same_view ws2 w2"
  shows "\<exists>w1' w2'. compare_sheets w1 w2 ds =
           Inr (w1', w2', ds @ map (difference_at ws1 ws2)
             (filter (cell_differs ws1 ws2)
               (grid (max (ws_max_row w1) (ws_max_row w2)) (max (ws_max_column w1) (ws_max_column w2)))))
         \<and> same_view ws1 w1' \<and> same_view ws2 w2'"
  unfolding compare_sheets_def grid_def Let_def
  by (rule compare_rows [OF assms])

section \<open>Coordinates beyond the stored cells\<close>

lemma beyond_max_row: "ws_max_row ws < r \<Longrightarrow> map_of (cells ws) (r, c) = None"
proof (rule ccontr)
  assume b: "ws_max_row ws < r" and "map_of (cells ws) (r, c) \<noteq> None"
  then obtain v where "((r, c), v) \<in> set (cells ws)"
    by (auto dest: map_of_SomeD)
  then have ne: "cells ws \<noteq> []" and "r \<in> set (map (\<lambda>kv. fst (fst kv)) (cells ws))"
    by force+
  then have "r \<le> Max (set (map (\<lambda>kv. fst (fst kv)) (cells ws)))"
    by (intro Max_ge) auto
  moreover have "ws_max_row ws = Max (set (map (\<lambda>kv. fst (fst kv)) (cells ws)))"
    using ne by (simp only: ws_max_row_def if_False)
  ultimately show False
    using b by linarith
qed

lemma beyond_max_column: "ws_max_column ws < c \<Longrightarrow> map_of (cells ws) (r, c) = None"
proof (rule ccontr)
  assume b: "ws_max_column ws < c" and "map_of (cells ws) (r, c) \<noteq> None"
  then obtain v where "((r, c), v) \<in> set (cells ws)"
    by (auto dest: map_of_SomeD)
  then have ne: "cells ws \<noteq> []" and "c \<in> set (map (\<lambda>kv. snd (fst kv)) (cells ws))"
    by force+
  then have "c \<le> Max (set (map (\<lambda>kv. snd (fst kv)) (cells ws)))"
    by (intro Max_ge) auto
  moreover have "ws_max_column ws = Max (set (map (\<lambda>kv. snd (fst kv)) (cells ws)))"
    using ne by (simp only: ws_max_column_def if_False)
  ultimately show False
    using b by linarith
qed

lemma cell_at_beyond:
  assumes "ws_max_row ws < r \<or> ws_max_column ws < c"
  shows "cell_at ws r c = \<lparr>row = r, column = c, cell_value = PyNone, data_type = TYPE_NULL\<rparr>"
proof -
  have "map_of (cells ws) (r, c) = None"
    using assms beyond_max_row beyond_max_column by blast
  then show ?thesis
    by (simp add: cell_at_def ws_cell_def)
qed

lemma cell_text_beyond:
  assumes "same_view ws w" "ws_max_row w < r \<or> ws_max_column w < c"
  shows "cell_text (cell_at ws r c) = []"
proof -
  have "cell_at ws r c = cell_at w r c"
    using same_view_cell_at [OF assms(1)] by simp
  then show ?thesis
    using cell_at_beyond [OF assms(2)] by (simp add: cell_text_def masked_types_def)
qed

lemma quiet_beyond:
  assumes "same_view ws1 w1" "same_view ws2 w2"
    and "max (ws_max_row w1) (ws_max_row w2) < r \<or> max (ws_max_column w1) (ws_max_column w2) < c"
  shows "\<not> cell_differs ws1 ws2 (r, c)"
proof -
  have b1: "ws_max_row w1 < r \<or> ws_max_column w1 < c" and b2: "ws_max_row w2 < r \<or> ws_max_column w2 < c"
    using assms(3) by auto
  have "cell_text (cell_at ws1 r c) = []" "cell_text (cell_at ws2 r c) = []"
    using cell_text_beyond [OF assms(1) b1] cell_text_beyond [OF assms(2) b2] by simp_all
  then show ?thesis
    by (simp add: cell_differs_def)
qed

section \<open>The grid may be larger than needed\<close>

lemma filter_row_wider:
  assumes "\<And>c. C < c \<Longrightarrow> \<not> P (r, c)" "C \<le> C'"
  shows "filter P (map (\<lambda>c. (r, c)) [1..<C' + 1]) = filter P (map (\<lambda>c. (r, c)) [1..<C + 1])"
proof -
  obtain d where d: "C' = C + d"
    using assms(2) le_Suc_ex by blast
  have "[1..<C' + 1] = [1..<C + 1] @ [C + 1..<C + 1 + d]"
    using upt_add_eq_append [of 1 "C + 1" d] by (simp add: d add.commute add.left_commute)
  moreover have "filter P (map (\<lambda>c. (r, c)) [C + 1..<C + 1 + d]) = []"
    using assms(1) by (auto simp: filter_empty_conv)
  ultimately show ?thesis
    by simp
qed

lemma filter_grid_larger:
  assumes "\<And>r c. R < r \<or> C < c \<Longrightarrow> \<not> P (r, c)" "R \<le> R'" "C \<le> C'"
  shows "filter P (grid R' C') = filter P (grid R C)"
proof -
  obtain d where d: "R' = R + d"
    using assms(2) le_Suc_ex by blast
  have rows: "[1..<R' + 1] = [1..<R + 1] @ [R + 1..<R + 1 + d]"
    using upt_add_eq_append [of 1 "R + 1" d] by (simp add: d add.commute add.left_commute)
  have late: "filter P (concat (map (\<lambda>r. map (\<lambda>c. (r, c)) [1..<C' + 1]) [R + 1..<R + 1 + d])) = []"
    using assms(1) by (auto simp: filter_empty_conv)
  have early: "filter P (concat (map (\<lambda>r. map (\<lambda>c. (r, c)) [1..<C' + 1]) rs)) =
      filter P (concat (map (\<lambda>r. map (\<lambda>c. (r, c)) [1..<C + 1]) rs))" for rs
  proof (induction rs)
    case Nil
    show ?case by simp
  next
    case (Cons r rs)
    have "filter P (map (\<lambda>c. (r, c)) [1..<C' + 1]) = filter P (map (\<lambda>c. (r, c)) [1..<C + 1])"
      using assms(1) by (intro filter_row_wider [OF _ assms(3)]) simp
    then show ?case
      using Cons.IH by simp
  qed
  show ?thesis
    unfolding grid_def rows using late early by simp
qed

lemma filter_grid_quiet:
  assumes "\<And>r c. R < r \<or> C < c \<Longrightarrow> \<not> P (r, c)" "\<And>r c. R' < r \<or> C' < c \<Longrightarrow> \<not> P (r, c)"
  shows "filter P (grid R' C') = filter P (grid R C)"
proof -
  have "filter P (grid (max R R') (max C C')) = filter P (grid R C)"
    using assms(1) by (intro filter_grid_larger) auto
  moreover have "filter P (grid (max R R') (max C C')) = filter P (grid R' C')"
    using assms(2) by (intro filter_grid_larger) auto
  ultimately show ?thesis
    by simp
qed

section \<open>The entries of a pair of sheets\<close>

lemma compare_sheets_outcome:
  assumes "same_view ws1 w1" "same_view ws2 w2"
  shows "\<exists>w1' w2'. compare_sheets w1 w2 ds = Inr (w1', w2', ds @ sheet_differences ws1 ws2)
           \<and> same_view ws1 w1' \<and> same_view ws2 w2'"
proof -
  let ?R = "max (ws_max_row ws1) (ws_max_row ws2)" and ?C = "max (ws_max_column ws1) (ws_max_column ws2)"
  let ?R' = "max (ws_max_row w1) (ws_max_row w2)" and ?C' = "max (ws_max_column w1) (ws_max_column w2)"
  have q: "\<not> cell_differs ws1 ws2 (r, c)" if "?R < r \<or> ?C < c" for r c
    using quiet_beyond [OF same_view_refl same_view_refl that] .
  have q': "\<not> cell_differs ws1 ws2 (r, c)" if "?R' < r \<or> ?C' < c" for r c
    using quiet_beyond [OF assms that] .
  have fl: "filter (cell_differs ws1 ws2) (grid ?R' ?C') = filter (cell_differs ws1 ws2) (sheet_grid ws1 ws2)"
    unfolding sheet_grid_def
    using q q' by (intro filter_grid_quiet) blast+
  obtain w1' w2' where r: "compare_sheets w1 w2 ds =
      Inr (w1', w2', ds @ map (difference_at ws1 ws2) (filter (cell_differs ws1 ws2) (grid ?R' ?C')))"
    and v: "same_view ws1 w1'" "same_view ws2 w2'"
    using compare_sheets_result [OF assms, of ds] by blast
  show ?thesis
    using r v fl by (simp add: sheet_differences_def)
qed

section \<open>Workbooks and their sheet states\<close>

lemma sheetnames_views: "list_all2 same_view wb w \<Longrightarrow> sheetnames w = sheetnames wb"
  by (induction rule: list_all2_induct) (simp_all add: sheetnames_def same_view_def)

lemma find_views:
  "list_all2 same_view wb w \<Longrightarrow>
   rel_option same_view (find (\<lambda>s. title s = n) wb) (find (\<lambda>s. title s = n) w)"
  by (induction rule: list_all2_induct) (simp_all add: same_view_def)

lemma find_title_None: "(find (\<lambda>s. title s = n) wb = None) = (n \<notin> set (sheetnames wb))"
  by (auto simp: find_None_iff sheetnames_def)

lemma wb_put_views:
  "list_all2 same_view wb w \<Longrightarrow> find (\<lambda>s. title s = n) wb = Some a \<Longrightarrow> same_view a b \<Longrightarrow>
   list_all2 same_view wb (wb_put w n b)"
proof (induction arbitrary: a rule: list_all2_induct)
  case Nil
  then show ?case by simp
next
  case (Cons x xs y ys)
  have t: "title y = title x"
    using Cons.hyps(1) by (simp add: same_view_def)
  show ?case
  proof (cases "title x = n")
    case True
    then have "a = x"
      using Cons.prems(1) by simp
    then show ?thesis
      using True t Cons.hyps(2) Cons.prems(2) by simp
  next
    case False
    then have "find (\<lambda>s. title s = n) xs = Some a"
      using Cons.prems(1) by simp
    then show ?thesis
      using False t Cons.hyps(1) Cons.IH Cons.prems(2) by simp
  qed
qed

lemma same_view_sheet_hidden: "same_view a b \<Longrightarrow> is_worksheet_hidden b = is_worksheet_hidden a"
  by (simp add: same_view_def is_worksheet_hidden_def)

section \<open>The loop over the sheet names\<close>

lemma compare_sheetnames_skip:
  assumes "matched_pair wb1 wb2 name = None" "name \<in> set (sheetnames wb1)"
    and "list_all2 same_view wb1 w1" "list_all2 same_view wb2 w2"
  shows "compare_sheetnames (name # rest) (w1, w2, ds) = compare_sheetnames rest (w1, w2, ds)"
proof (cases "name \<in> set (sheetnames wb2)")
  case False
  then show ?thesis
    using sheetnames_views [OF assms(4)] by simp
next
  case True
  obtain a1 where a1: "find (\<lambda>s. title s = name) wb1 = Some a1"
    using assms(2) find_title_None [of name wb1] by auto
  obtain a2 where a2: "find (\<lambda>s. title s = name) wb2 = Some a2"
    using True find_title_None [of name wb2] by auto
  obtain b1 where b1: "find (\<lambda>s. title s = name) w1 = Some b1" "same_view a1 b1"
    using find_views [OF assms(3), of name] a1 by (auto simp: option_rel_Some1)
  obtain b2 where b2: "find (\<lambda>s. title s = name) w2 = Some b2" "same_view a2 b2"
    using find_views [OF assms(4), of name] a2 by (auto simp: option_rel_Some1)
  have "is_worksheet_hidden a1 \<or> is_worksheet_hidden a2"
    using assms(1) a1 a2 by (simp add: matched_pair_def split: if_splits)
  then have "is_worksheet_hidden b1 \<or> is_worksheet_hidden b2"
    using same_view_sheet_hidden [OF b1(2)] same_view_sheet_hidden [OF b2(2)] by simp
  then show ?thesis
    using b1(1) b2(1) True sheetnames_views [OF assms(4)] by (auto simp: wb_get_def)
qed

lemma compare_sheetnames_pair:
  assumes "matched_pair wb1 wb2 name = Some (a1, a2)"
    and "list_all2 same_view wb1 w1" "list_all2 same_view wb2 w2"
  shows "\<exists>b1 b2. same_view a1 b1 \<and> same_view a2 b2 \<and>
           find (\<lambda>s. title s = name) w1 = Some b1 \<and> find (\<lambda>s. title s = name) w2 = Some b2 \<and>
           find (\<lambda>s. title s = name) wb1 = Some a1 \<and> find (\<lambda>s. title s = name) wb2 = Some a2 \<and>
           compare_sheetnames (name # rest) (w1, w2, ds) =
             (case compare_sheets b1 b2 ds of
                Inl e \<Rightarrow> Inl e
              | Inr (b1', b2', ds') \<Rightarrow>
                  compare_sheetnames rest (wb_put w1 name b1', wb_put w2 name b2', ds'))"
proof -
  have a: "find (\<lambda>s. title s = name) wb1 = Some a1" "find (\<lambda>s. title s = name) wb2 = Some a2"
    "\<not> is_worksheet_hidden a1" "\<not> is_worksheet_hidden a2"
    using assms(1) by (auto simp: matched_pair_def split: option.splits if_splits)
  obtain b1 where b1: "find (\<lambda>s. title s = name) w1 = Some b1" "same_view a1 b1"
    using find_views [OF assms(2), of name] a(1) by (auto simp: option_rel_Some1)
  obtain b2 where b2: "find (\<lambda>s. title s = name) w2 = Some b2" "same_view a2 b2"
    using find_views [OF assms(3), of name] a(2) by (auto simp: option_rel_Some1)
  have h: "\<not> is_worksheet_hidden b1" "\<not> is_worksheet_hidden b2"
    using a(3,4) same_view_sheet_hidden [OF b1(2)] same_view_sheet_hidden [OF b2(2)] by simp_all
  have "name \<in> set (sheetnames w2)"
    using b2(1) find_title_None [of name w2] by auto
  then have "compare_sheetnames (name # rest) (w1, w2, ds) =
             (case compare_sheets b1 b2 ds of
                Inl e \<Rightarrow> Inl e
              | Inr (b1', b2', ds') \<Rightarrow>
                  compare_sheetnames rest (wb_put w1 name b1', wb_put w2 name b2', ds'))"
    using b1(1) b2(1) h by (simp add: wb_get_def)
  then show ?thesis
    using a(1,2) b1 b2 by blast
qed

lemma compare_sheetnames_outcome:
  assumes "set names \<subseteq> set (sheetnames wb1)"
    and "list_all2 same_view wb1 w1" "list_all2 same_view wb2 w2"
  shows "\<exists>w1' w2'. compare_sheetnames names (w1, w2, ds) =
           Inr (w1', w2', ds @ concat (map (\<lambda>p. sheet_differences (fst p) (snd p))
                  (List.map_filter (matched_pair wb1 wb2) names)))
         \<and> list_all2 same_view wb1 w1' \<and> list_all2 same_view wb2 w2'"
  using assms
proof (induction names arbitrary: w1 w2 ds)
  case Nil
  then show ?case by (simp add: map_filter_simps)
next
  case (Cons name rest)
  have sub: "set rest \<subseteq> set (sheetnames wb1)" and mem: "name \<in> set (sheetnames wb1)"
    using Cons.prems(1) by simp_all
  show ?case
  proof (cases "matched_pair wb1 wb2 name")
    case None
    have skip: "compare_sheetnames (name # rest) (w1, w2, ds) = compare_sheetnames rest (w1, w2, ds)"
      using compare_sheetnames_skip [OF None mem Cons.prems(2,3)] .
    have mf: "List.map_filter (matched_pair wb1 wb2) (name # rest) =
        List.map_filter (matched_pair wb1 wb2) rest"
      using None by (simp add: map_filter_simps)
    show ?thesis
      unfolding skip mf
      by (rule Cons.IH [OF sub Cons.prems(2,3)])
  next
    case (Some p)
    obtain a1 a2 where p: "p = (a1, a2)" by (cases p)
    have mp: "matched_pair wb1 wb2 name = Some (a1, a2)"
      using Some p by simp
    have mf: "List.map_filter (matched_pair wb1 wb2) (name # rest) =
        (a1, a2) # List.map_filter (matched_pair wb1 wb2) rest"
      using mp by (simp add: map_filter_simps)
    obtain b1 b2 where v: "same_view a1 b1" "same_view a2 b2"
      and fa: "find (\<lambda>s. title s = name) wb1 = Some a1" "find (\<lambda>s. title s = name) wb2 = Some a2"
      and step: "compare_sheetnames (name # rest) (w1, w2, ds) =
             (case compare_sheets b1 b2 ds of
                Inl e \<Rightarrow> Inl e
              | Inr (b1', b2', ds') \<Rightarrow>
                  compare_sheetnames rest (wb_put w1 name b1', wb_put w2 name b2', ds'))"
      using compare_sheetnames_pair [OF mp Cons.prems(2,3), of rest ds] by blast
    let ?d = "ds @ sheet_differences a1 a2"
    obtain b1' b2' where r: "compare_sheets b1 b2 ds = Inr (b1', b2', ?d)"
      and v': "same_view a1 b1'" "same_view a2 b2'"
      using compare_sheets_outcome [OF v, of ds] by blast
    have step': "compare_sheetnames (name # rest) (w1, w2, ds) =
        compare_sheetnames rest (wb_put w1 name b1', wb_put w2 name b2', ?d)"
      unfolding step r by simp
    have app: "?d @ concat (map (\<lambda>p. sheet_differences (fst p) (snd p))
          (List.map_filter (matched_pair wb1 wb2) rest)) =
        ds @ concat (map (\<lambda>p. sheet_differences (fst p) (snd p))
          (List.map_filter (matched_pair wb1 wb2) (name # rest)))"
      unfolding mf by simp
    show ?thesis
      unfolding step' app [symmetric]
      by (rule Cons.IH [OF sub
            wb_put_views [OF Cons.prems(2) fa(1) v'(1)] wb_put_views [OF Cons.prems(3) fa(2) v'(2)]])
  qed
qed

lemma compare_target_outcome:
  assumes "list_all2 same_view wb1 w1" "list_all2 same_view wb2 w2"
  shows "\<exists>w1' w2'. compare_target w1 w2 = Inr (w1', w2', target_differences wb1 wb2)
           \<and> list_all2 same_view wb1 w1' \<and> list_all2 same_view wb2 w2'"
  using compare_sheetnames_outcome [OF subset_refl assms, of "[]"]
  unfolding compare_target_def target_differences_def target_pairs_def
    sheetnames_views [OF assms(1)]
  by simp

section \<open>The differences workbook\<close>

lemma write_difference_other_row:
  "r \<noteq> fst rd \<Longrightarrow> write_difference rd g (r, k) = g (r, k)"
  by (cases rd) (simp add: write_difference_def)

lemma written_rows_above:
  "r < n \<Longrightarrow> fold write_difference (enumerate n ds) g (r, k) = g (r, k)"
proof (induction ds arbitrary: n g)
  case Nil
  show ?case by simp
next
  case (Cons d ds)
  have "fold write_difference (enumerate (Suc n) ds) (write_difference (n, d) g) (r, k) =
      write_difference (n, d) g (r, k)"
    using Cons.prems by (intro Cons.IH) simp
  then show ?case
    using Cons.prems by (simp add: write_difference_other_row)
qed

lemma written_row:
  "i < length ds \<Longrightarrow>
   fold write_difference (enumerate n ds) g (n + i, 1) = Some (worksheet_name (ds ! i)) \<and>
   fold write_difference (enumerate n ds) g (n + i, 2) = Some (cell_address (ds ! i)) \<and>
   fold write_difference (enumerate n ds) g (n + i, 3) = Some (value1 (ds ! i)) \<and>
   fold write_difference (enumerate n ds) g (n + i, 4) = Some (value2 (ds ! i))"
proof (induction ds arbitrary: n g i)
  case Nil
  then show ?case by simp
next
  case (Cons d ds)
  show ?case
  proof (cases i)
    case 0
    have above: "fold write_difference (enumerate (Suc n) ds) (write_difference (n, d) g) (n, k) =
        write_difference (n, d) g (n, k)" for k
      by (intro written_rows_above) simp
    have w: "write_difference (n, d) g (n, 1) = Some (worksheet_name d)"
      "write_difference (n, d) g (n, 2) = Some (cell_address d)"
      "write_difference (n, d) g (n, 3) = Some (value1 d)"
      "write_difference (n, d) g (n, 4) = Some (value2 d)"
      by (simp_all add: write_difference_def)
    show ?thesis
      using 0 w by (simp add: above)
  next
    case (Suc j)
    then have "j < length ds"
      using Cons.prems by simp
    from Cons.IH [OF this, of "Suc n" "write_difference (n, d) g"] show ?thesis
      using Suc by simp
  qed
qed

section \<open>The loop over the targets\<close>

lemma views_refl: "list_all2 same_view wb wb"
  by (simp add: list_all2_refl same_view_refl)

lemma main_targets_outcome:
  assumes "list_all2 same_view wb1 w1"
  shows "\<exists>w1'. main_targets stem1 ts (w1, saved) =
           (Inr w1', saved @ List.map_filter
              (\<lambda>t. write_report stem1 (target_stem t) (target_differences wb1 (target_workbook t))) ts)
         \<and> list_all2 same_view wb1 w1'"
  using assms
proof (induction ts arbitrary: w1 saved)
  case Nil
  then show ?case by (simp add: map_filter_simps)
next
  case (Cons t ts)
  let ?ds = "target_differences wb1 (target_workbook t)"
  obtain w1' w2' where r: "compare_target w1 (target_workbook t) = Inr (w1', w2', ?ds)"
    and v: "list_all2 same_view wb1 w1'"
    using compare_target_outcome [OF Cons.prems views_refl] by blast
  show ?case
  proof (cases "write_report stem1 (target_stem t) ?ds")
    case None
    have step: "main_targets stem1 (t # ts) (w1, saved) = main_targets stem1 ts (w1', saved)"
      by (simp add: r None)
    show ?thesis
      unfolding step
      using Cons.IH [OF v, of saved] None
      by (simp add: map_filter_simps)
  next
    case (Some a)
    have step: "main_targets stem1 (t # ts) (w1, saved) = main_targets stem1 ts (w1', saved @ [a])"
      by (simp add: r Some)
    show ?thesis
      unfolding step
      using Cons.IH [OF v, of "saved @ [a]"] Some
      by (simp add: map_filter_simps)
  qed
qed

section \<open>Order of the visited coordinates\<close>

lemma sorted_rows_columns:
  assumes "sorted_wrt (<) rows" "sorted_wrt (<) cols"
  shows "sorted_wrt coordinate_less (concat (map (\<lambda>r. map (\<lambda>c. (r, c)) cols) rows))"
  using assms(1)
proof (induction rows)
  case Nil
  show ?case by simp
next
  case (Cons r rows)
  have row: "sorted_wrt coordinate_less (map (\<lambda>c. (r, c)) cols)"
    using assms(2) by (simp add: sorted_wrt_map coordinate_less_def)
  have later: "\<forall>x \<in> set (map (\<lambda>c. (r, c)) cols).
      \<forall>y \<in> set (concat (map (\<lambda>r. map (\<lambda>c. (r, c)) cols) rows)). coordinate_less x y"
    using Cons.prems by (auto simp: coordinate_less_def)
  show ?case
    using row later Cons.IH Cons.prems by (simp add: sorted_wrt_append)
qed

lemma sorted_grid: "sorted_wrt coordinate_less (grid R C)"
  unfolding grid_def by (rule sorted_rows_columns) (rule sorted_wrt_upt)+

lemma find_title: "find (\<lambda>ws. title ws = name) wb = Some ws \<Longrightarrow> title ws = name"
  by (induction wb) (auto split: if_splits)

lemma matched_pair_title: "matched_pair wb1 wb2 name = Some p \<Longrightarrow> title (fst p) = name"
  by (auto simp: matched_pair_def dest: find_title split: option.splits if_splits)

lemma target_pairs_titles:
  "map (\<lambda>p. title (fst p)) (List.map_filter (matched_pair wb1 wb2) names) =
     filter (\<lambda>name. matched_pair wb1 wb2 name \<noteq> None) names"
proof (induction names)
  case Nil
  show ?case by (simp add: map_filter_simps)
next
  case (Cons name names)
  show ?case
  proof (cases "matched_pair wb1 wb2 name")
    case None
    then show ?thesis
      using Cons.IH by (simp add: map_filter_simps)
  next
    case (Some p)
    then show ?thesis
      using Cons.IH matched_pair_title [OF Some] by (simp add: map_filter_simps)
  qed
qed

section \<open>The simple scenario\<close>

text \<open>
  C1. Base sheet "Sheet1" with the numbers A1 = 5 and B1 = 10, target sheet "Sheet1"
  with A1 = 5 and B1 = 99, no merged ranges, nothing hidden: the comparison is expected
  to report the one entry ("Sheet1", "B1", "10", "99"). Under the script it reports
  nothing: the list of differences is empty, since both numbers carry the tag that is
  tested for a cell without content.
\<close>

theorem simple_diff_reports_nothing:
  "map_sum id (\<lambda>st. snd (snd st))
     (compare_target
        [plain_sheet ''Sheet1'' [((1, 1), (PyInt 5, ''n'')), ((1, 2), (PyInt 10, ''n''))]]
        [plain_sheet ''Sheet1'' [((1, 1), (PyInt 5, ''n'')), ((1, 2), (PyInt 99, ''n''))]]) = Inr []"
  by code_simp

section \<open>The compared text of a cell\<close>

text \<open>
  C2. The tag tested for a cell without content is the tag of a number. So a cell that
  holds a number is compared as the empty string, whatever the number and wherever the
  cell lies; and for two sheets whose cells, at every visited coordinate, are either
  equal or both numbers, the comparison ends with the list it started with.
\<close>

theorem numeric_cells_masked:
  "TYPE_NULL = TYPE_NUMERIC \<and>
   (data_type c = TYPE_NUMERIC \<longrightarrow> masked_value ws c = Inr []) \<and>
   (list_all (\<lambda>rc. cell_at ws1 (fst rc) (snd rc) = cell_at ws2 (fst rc) (snd rc) \<or>
                    data_type (cell_at ws1 (fst rc) (snd rc)) = TYPE_NUMERIC \<and>
                    data_type (cell_at ws2 (fst rc) (snd rc)) = TYPE_NUMERIC)
      (sheet_grid ws1 ws2) \<longrightarrow>
    (\<exists>w1 w2. compare_sheets ws1 ws2 ds = Inr (w1, w2, ds)))"
proof (intro conjI impI)
  show "TYPE_NULL = TYPE_NUMERIC"
    by (simp add: TYPE_NULL_def TYPE_NUMERIC_def)
next
  assume "data_type c = TYPE_NUMERIC"
  then show "masked_value ws c = Inr []"
    by (simp add: masked_value_result cell_text_def masked_types_def TYPE_NULL_def TYPE_NUMERIC_def)
next
  assume a: "list_all (\<lambda>rc. cell_at ws1 (fst rc) (snd rc) = cell_at ws2 (fst rc) (snd rc) \<or>
                    data_type (cell_at ws1 (fst rc) (snd rc)) = TYPE_NUMERIC \<and>
                    data_type (cell_at ws2 (fst rc) (snd rc)) = TYPE_NUMERIC)
      (sheet_grid ws1 ws2)"
  have "\<not> cell_differs ws1 ws2 rc" if "rc \<in> set (sheet_grid ws1 ws2)" for rc
  proof -
    from a that have "cell_at ws1 (fst rc) (snd rc) = cell_at ws2 (fst rc) (snd rc) \<or>
        data_type (cell_at ws1 (fst rc) (snd rc)) = TYPE_NUMERIC \<and>
        data_type (cell_at ws2 (fst rc) (snd rc)) = TYPE_NUMERIC"
      by (simp add: list_all_iff)
    then show ?thesis
      by (auto simp: cell_differs_def cell_text_def masked_types_def TYPE_NULL_def TYPE_NUMERIC_def)
  qed
  then have "filter (cell_differs ws1 ws2) (sheet_grid ws1 ws2) = []"
    by (simp add: filter_empty_conv)
  then have "sheet_differences ws1 ws2 = []"
    by (simp add: sheet_differences_def)
  then show "\<exists>w1 w2. compare_sheets ws1 ws2 ds = Inr (w1, w2, ds)"
    using compare_sheets_outcome [OF same_view_refl same_view_refl, of ws1 ws2 ds] by auto
qed

theorem numeric_cells_masked_witness:
  "cell_at merged_sheet 1 3 = \<lparr>row = 1, column = 3, cell_value = PyInt 2024, data_type = TYPE_NUMERIC\<rparr> \<and>
   range_contains (merged_cells merged_sheet ! 1) (cell_at merged_sheet 1 3) \<and>
   masked_value merged_sheet (cell_at merged_sheet 1 3) = Inr [] \<and>
   list_all (\<lambda>rc. cell_at merged_sheet (fst rc) (snd rc) =
                     cell_at (merged_sheet\<lparr>cells := (cells merged_sheet)[2 := ((1, 3), (PyInt 2025, ''n''))]\<rparr>)
                       (fst rc) (snd rc) \<or>
                    data_type (cell_at merged_sheet (fst rc) (snd rc)) = TYPE_NUMERIC \<and>
                    data_type (cell_at (merged_sheet\<lparr>cells := (cells merged_sheet)[2 := ((1, 3), (PyInt 2025, ''n''))]\<rparr>)
                       (fst rc) (snd rc)) = TYPE_NUMERIC)
      (sheet_grid merged_sheet
         (merged_sheet\<lparr>cells := (cells merged_sheet)[2 := ((1, 3), (PyInt 2025, ''n''))]\<rparr>)) \<and>
   cell_value (cell_at (merged_sheet\<lparr>cells := (cells merged_sheet)[2 := ((1, 3), (PyInt 2025, ''n''))]\<rparr>) 1 3) =
     PyInt 2025 \<and>
   map_sum id (\<lambda>st. snd (snd st))
     (compare_sheets merged_sheet
        (merged_sheet\<lparr>cells := (cells merged_sheet)[2 := ((1, 3), (PyInt 2025, ''n''))]\<rparr>) []) = Inr []"
proof -
  let ?s = "merged_sheet\<lparr>cells := (cells merged_sheet)[2 := ((1, 3), (PyInt 2025, ''n''))]\<rparr>"
  note t = numeric_cells_masked [of "cell_at merged_sheet 1 3" merged_sheet merged_sheet ?s "[]"]
  have c: "cell_at merged_sheet 1 3 =
      \<lparr>row = 1, column = 3, cell_value = PyInt 2024, data_type = TYPE_NUMERIC\<rparr>"
    by code_simp
  have i: "range_contains (merged_cells merged_sheet ! 1) (cell_at merged_sheet 1 3)"
    by code_simp
  have d: "data_type (cell_at merged_sheet 1 3) = TYPE_NUMERIC"
    by code_simp
  have h: "list_all (\<lambda>rc. cell_at merged_sheet (fst rc) (snd rc) = cell_at ?s (fst rc) (snd rc) \<or>
                    data_type (cell_at merged_sheet (fst rc) (snd rc)) = TYPE_NUMERIC \<and>
                    data_type (cell_at ?s (fst rc) (snd rc)) = TYPE_NUMERIC)
      (sheet_grid merged_sheet ?s)"
    by code_simp
  have v: "cell_value (cell_at ?s 1 3) = PyInt 2025"
    by code_simp
  from t d have m: "masked_value merged_sheet (cell_at merged_sheet 1 3) = Inr []"
    by blast
  from t h obtain w1 w2 where "compare_sheets merged_sheet ?s [] = Inr (w1, w2, [])"
    by blast
  then have r: "map_sum id (\<lambda>st. snd (snd st)) (compare_sheets merged_sheet ?s []) = Inr []"
    by simp
  from c i m h v r show ?thesis
    by blast
qed

text \<open>
  C4. A cell whose data type is that of a cell without content, of an error, of a
  formula or of the cached string of a formula is compared as the empty string, whatever
  it stores, in either sheet; so where both sheets have such a cell, and in particular
  two formula cells that store different texts, the step at the coordinate adds no
  entry.
\<close>

theorem masked_types_compare_empty:
  "masked_types = [''n'', ''e'', ''f'', ''str''] \<and>
   (data_type c \<in> set masked_types \<longrightarrow> masked_value ws c = Inr []) \<and>
   (data_type (cell_at ws1 r k) \<in> set masked_types \<and> data_type (cell_at ws2 r k) \<in> set masked_types \<longrightarrow>
      (\<exists>w1 w2. compare_cell r k (ws1, ws2, ds) = Inr (w1, w2, ds)))"
proof (intro conjI impI)
  show "masked_types = [''n'', ''e'', ''f'', ''str'']"
    by (simp add: masked_types_def TYPE_NULL_def TYPE_ERROR_def TYPE_FORMULA_def
        TYPE_FORMULA_CACHE_STRING_def)
next
  assume "data_type c \<in> set masked_types"
  then show "masked_value ws c = Inr []"
    by (simp add: masked_value_result cell_text_def)
next
  assume "data_type (cell_at ws1 r k) \<in> set masked_types \<and> data_type (cell_at ws2 r k) \<in> set masked_types"
  then have "\<not> cell_differs ws1 ws2 (r, k)"
    by (simp add: cell_differs_def cell_text_def)
  then show "\<exists>w1 w2. compare_cell r k (ws1, ws2, ds) = Inr (w1, w2, ds)"
    using compare_cell_step [of ws1 ws1 ws2 ws2 r k ds, OF same_view_refl same_view_refl] by simp
qed

theorem masked_types_compare_empty_witness:
  "cell_at merged_sheet 1 5 = \<lparr>row = 1, column = 5, cell_value = PyStr ''=A1'', data_type = ''f''\<rparr> \<and>
   cell_at (merged_sheet\<lparr>cells := (cells merged_sheet)[4 := ((1, 5), (PyStr ''=B1'', ''f''))]\<rparr>) 1 5 =
     \<lparr>row = 1, column = 5, cell_value = PyStr ''=B1'', data_type = ''f''\<rparr> \<and>
   range_contains (merged_cells merged_sheet ! 2) (cell_at merged_sheet 1 5) \<and>
   data_type (cell_at merged_sheet 1 5) \<in> set masked_types \<and>
   data_type (cell_at (merged_sheet\<lparr>cells := (cells merged_sheet)[4 := ((1, 5), (PyStr ''=B1'', ''f''))]\<rparr>) 1 5)
     \<in> set masked_types \<and>
   masked_value merged_sheet (cell_at merged_sheet 1 5) = Inr [] \<and>
   map_sum id (\<lambda>st. snd (snd st))
     (compare_cell 1 5
        (merged_sheet,
         merged_sheet\<lparr>cells := (cells merged_sheet)[4 := ((1, 5), (PyStr ''=B1'', ''f''))]\<rparr>, [])) = Inr []"
proof -
  let ?s = "merged_sheet\<lparr>cells := (cells merged_sheet)[4 := ((1, 5), (PyStr ''=B1'', ''f''))]\<rparr>"
  note t = masked_types_compare_empty [of "cell_at merged_sheet 1 5" merged_sheet merged_sheet 1 5 ?s "[]"]
  have c1: "cell_at merged_sheet 1 5 =
      \<lparr>row = 1, column = 5, cell_value = PyStr ''=A1'', data_type = ''f''\<rparr>"
    by code_simp
  have c2: "cell_at ?s 1 5 = \<lparr>row = 1, column = 5, cell_value = PyStr ''=B1'', data_type = ''f''\<rparr>"
    by code_simp
  have i: "range_contains (merged_cells merged_sheet ! 2) (cell_at merged_sheet 1 5)"
    by code_simp
  have d1: "data_type (cell_at merged_sheet 1 5) \<in> set masked_types"
    by code_simp
  have d2: "data_type (cell_at ?s 1 5) \<in> set masked_types"
    by code_simp
  from t d1 have m: "masked_value merged_sheet (cell_at merged_sheet 1 5) = Inr []"
    by blast
  from t d1 d2 obtain w1 w2 where "compare_cell 1 5 (merged_sheet, ?s, []) = Inr (w1, w2, [])"
    by blast
  then have r: "map_sum id (\<lambda>st. snd (snd st)) (compare_cell 1 5 (merged_sheet, ?s, [])) = Inr []"
    by simp
  from c1 c2 i d1 d2 m r show ?thesis
    by blast
qed

text \<open>
  C10. A cell that stores the empty string is compared as the empty string, and so is
  a cell without a value, which is what a coordinate with no stored cell gives. So
  where one sheet has a cell with the empty string and the other a cell without a
  value, on either side, the step at the coordinate adds no entry.
\<close>

theorem empty_text_like_absent:
  "(cell_value c = PyStr [] \<longrightarrow> masked_value ws c = Inr []) \<and>
   (map_of (cells a) (r, k) = None \<longrightarrow>
      cell_at a r k = \<lparr>row = r, column = k, cell_value = PyNone, data_type = TYPE_NULL\<rparr>) \<and>
   (cell_value (cell_at ws1 r k) = PyStr [] \<and>
    cell_at ws2 r k = \<lparr>row = r, column = k, cell_value = PyNone, data_type = TYPE_NULL\<rparr> \<longrightarrow>
      (\<exists>w1 w2. compare_cell r k (ws1, ws2, ds) = Inr (w1, w2, ds)) \<and>
      (\<exists>w1 w2. compare_cell r k (ws2, ws1, ds) = Inr (w1, w2, ds)))"
proof (intro conjI impI)
  assume "cell_value c = PyStr []"
  then show "masked_value ws c = Inr []"
    by (simp add: masked_value_result cell_text_def)
next
  assume "map_of (cells a) (r, k) = None"
  then show "cell_at a r k = \<lparr>row = r, column = k, cell_value = PyNone, data_type = TYPE_NULL\<rparr>"
    by (simp add: cell_at_def ws_cell_def)
next
  assume a: "cell_value (cell_at ws1 r k) = PyStr [] \<and>
    cell_at ws2 r k = \<lparr>row = r, column = k, cell_value = PyNone, data_type = TYPE_NULL\<rparr>"
  then have "cell_text (cell_at ws1 r k) = []" "cell_text (cell_at ws2 r k) = []"
    by (simp_all add: cell_text_def masked_types_def)
  then have n: "\<not> cell_differs ws1 ws2 (r, k)" "\<not> cell_differs ws2 ws1 (r, k)"
    by (simp_all add: cell_differs_def)
  show "\<exists>w1 w2. compare_cell r k (ws1, ws2, ds) = Inr (w1, w2, ds)"
    using compare_cell_step [of ws1 ws1 ws2 ws2 r k ds, OF same_view_refl same_view_refl] n(1) by simp
  show "\<exists>w1 w2. compare_cell r k (ws2, ws1, ds) = Inr (w1, w2, ds)"
    using compare_cell_step [of ws2 ws2 ws1 ws1 r k ds, OF same_view_refl same_view_refl] n(2) by simp
qed

theorem empty_text_like_absent_witness:
  "cell_at merged_sheet 1 7 = \<lparr>row = 1, column = 7, cell_value = PyStr [], data_type = ''s''\<rparr> \<and>
   range_contains (merged_cells merged_sheet ! 3) (cell_at merged_sheet 1 7) \<and>
   masked_value merged_sheet (cell_at merged_sheet 1 7) = Inr [] \<and>
   map_of (cells (plain_sheet ''Sheet1'' [((1, 1), (PyStr ''X'', ''s''))])) (1, 7) = None \<and>
   cell_at (plain_sheet ''Sheet1'' [((1, 1), (PyStr ''X'', ''s''))]) 1 7 =
     \<lparr>row = 1, column = 7, cell_value = PyNone, data_type = TYPE_NULL\<rparr> \<and>
   map_sum id (\<lambda>st. snd (snd st))
     (compare_cell 1 7 (merged_sheet, plain_sheet ''Sheet1'' [((1, 1), (PyStr ''X'', ''s''))], [])) = Inr [] \<and>
   map_sum id (\<lambda>st. snd (snd st))
     (compare_cell 1 7 (plain_sheet ''Sheet1'' [((1, 1), (PyStr ''X'', ''s''))], merged_sheet, [])) = Inr []"
proof -
  let ?p = "plain_sheet ''Sheet1'' [((1, 1), (PyStr ''X'', ''s''))]"
  note t = empty_text_like_absent [of "cell_at merged_sheet 1 7" merged_sheet ?p 1 7 merged_sheet ?p "[]"]
  have c: "cell_at merged_sheet 1 7 = \<lparr>row = 1, column = 7, cell_value = PyStr [], data_type = ''s''\<rparr>"
    by code_simp
  have i: "range_contains (merged_cells merged_sheet ! 3) (cell_at merged_sheet 1 7)"
    by code_simp
  have v: "cell_value (cell_at merged_sheet 1 7) = PyStr []"
    by code_simp
  have n: "map_of (cells ?p) (1, 7) = None"
    by code_simp
  from t v have m: "masked_value merged_sheet (cell_at merged_sheet 1 7) = Inr []"
    by blast
  from t n have a: "cell_at ?p 1 7 = \<lparr>row = 1, column = 7, cell_value = PyNone, data_type = TYPE_NULL\<rparr>"
    by blast
  from t v a obtain w1 w2 u1 u2 where "compare_cell 1 7 (merged_sheet, ?p, []) = Inr (w1, w2, [])"
    "compare_cell 1 7 (?p, merged_sheet, []) = Inr (u1, u2, [])"
    by blast
  then have r: "map_sum id (\<lambda>st. snd (snd st)) (compare_cell 1 7 (merged_sheet, ?p, [])) = Inr []"
    "map_sum id (\<lambda>st. snd (snd st)) (compare_cell 1 7 (?p, merged_sheet, [])) = Inr []"
    by simp_all
  from c i m n a r show ?thesis
    by blast
qed

section \<open>The visibility check\<close>

text \<open>
  C3. For a coordinate inside a merged range the check is expected to return true when
  some cell of that range lies in a hidden row or column. In the example sheet the range
  A1:A3 is merged, it is the first range of the sheet, it contains A1, and row 2, which
  crosses it, is hidden; the check at A1 returns false. The loop over the merged range
  receives no item, so the test of the hidden rows and columns is never made.
\<close>

theorem is_cell_hidden_false_in_hidden_merged_range:
  "merged_cells merged_sheet ! 0 = \<lparr>min_col = 1, min_row = 1, max_col = 1, max_row = 3\<rparr> \<and>
   coordinate (cell_at merged_sheet 1 1) = ''A1'' \<and>
   range_contains (merged_cells merged_sheet ! 0) (cell_at merged_sheet 1 1) \<and>
   range_contains (merged_cells merged_sheet ! 0) (cell_at merged_sheet 2 1) \<and>
   row_hidden merged_sheet (row (cell_at merged_sheet 2 1)) \<and>
   is_cell_hidden merged_sheet (cell_at merged_sheet 1 1) = Inr False"
  by code_simp

section \<open>The comparison of a pair of sheets\<close>

text \<open>
  C6. The loops over a pair of sheets visit the coordinates with row from 1 to the
  larger of the two row bounds and column from 1 to the larger of the two column bounds,
  row by row, and end without an error. Where the two compared texts differ, an entry is
  appended with the title of the first sheet, the address of the coordinate and the two
  texts, each text being what \<open>masked_value\<close> returns for the cell. A coordinate
  beyond the stored rows or columns of a sheet yields a cell without a value for that
  sheet.
\<close>

theorem compare_sheets_visits_grid:
  "(\<exists>w1 w2. compare_sheets ws1 ws2 ds =
      Inr (w1, w2, ds @
        map (\<lambda>rc. \<lparr>worksheet_name = title ws1,
                    cell_address = get_column_letter (snd rc) @ str_nat (fst rc),
                    value1 = cell_text (cell_at ws1 (fst rc) (snd rc)),
                    value2 = cell_text (cell_at ws2 (fst rc) (snd rc))\<rparr>)
          (filter (\<lambda>rc. cell_text (cell_at ws1 (fst rc) (snd rc)) \<noteq>
                          cell_text (cell_at ws2 (fst rc) (snd rc)))
             (sheet_grid ws1 ws2)))) \<and>
   sheet_grid ws1 ws2 =
     concat (map (\<lambda>r. map (\<lambda>c. (r, c)) [1..<max (ws_max_column ws1) (ws_max_column ws2) + 1])
                 [1..<max (ws_max_row ws1) (ws_max_row ws2) + 1]) \<and>
   (ws_max_row ws < r \<or> ws_max_column ws < k \<longrightarrow>
      cell_at ws r k = \<lparr>row = r, column = k, cell_value = PyNone, data_type = TYPE_NULL\<rparr>) \<and>
   masked_value ws (cell_at ws r k) = Inr (cell_text (cell_at ws r k))"
proof (intro conjI impI)
  have d: "difference_at ws1 ws2 =
      (\<lambda>rc. \<lparr>worksheet_name = title ws1,
              cell_address = get_column_letter (snd rc) @ str_nat (fst rc),
              value1 = cell_text (cell_at ws1 (fst rc) (snd rc)),
              value2 = cell_text (cell_at ws2 (fst rc) (snd rc))\<rparr>)"
    by (rule ext) (simp add: difference_at_def coordinate_def column_letter_def cell_at_row_column)
  have c: "cell_differs ws1 ws2 =
      (\<lambda>rc. cell_text (cell_at ws1 (fst rc) (snd rc)) \<noteq> cell_text (cell_at ws2 (fst rc) (snd rc)))"
    by (rule ext) (simp add: cell_differs_def)
  show "\<exists>w1 w2. compare_sheets ws1 ws2 ds =
      Inr (w1, w2, ds @
        map (\<lambda>rc. \<lparr>worksheet_name = title ws1,
                    cell_address = get_column_letter (snd rc) @ str_nat (fst rc),
                    value1 = cell_text (cell_at ws1 (fst rc) (snd rc)),
                    value2 = cell_text (cell_at ws2 (fst rc) (snd rc))\<rparr>)
          (filter (\<lambda>rc. cell_text (cell_at ws1 (fst rc) (snd rc)) \<noteq>
                          cell_text (cell_at ws2 (fst rc) (snd rc)))
             (sheet_grid ws1 ws2)))"
    using compare_sheets_outcome [of ws1 ws1 ws2 ws2 ds, OF same_view_refl same_view_refl]
    unfolding sheet_differences_def d c by blast
next
  show "sheet_grid ws1 ws2 =
     concat (map (\<lambda>r. map (\<lambda>c. (r, c)) [1..<max (ws_max_column ws1) (ws_max_column ws2) + 1])
                 [1..<max (ws_max_row ws1) (ws_max_row ws2) + 1])"
    by (simp only: sheet_grid_def grid_def)
next
  assume "ws_max_row ws < r \<or> ws_max_column ws < k"
  then show "cell_at ws r k = \<lparr>row = r, column = k, cell_value = PyNone, data_type = TYPE_NULL\<rparr>"
    by (rule cell_at_beyond)
next
  show "masked_value ws (cell_at ws r k) = Inr (cell_text (cell_at ws r k))"
    by (rule masked_value_result)
qed

theorem compare_sheets_visits_grid_witness:
  "map_sum id (\<lambda>st. snd (snd st)) (compare_sheets (example_base ! 3) (example_target ! 1) []) =
     Inr [\<lparr>worksheet_name = ''Data'', cell_address = ''A2'', value1 = ''b'', value2 = ''c''\<rparr>,
          \<lparr>worksheet_name = ''Data'', cell_address = ''B2'', value1 = [], value2 = ''d''\<rparr>] \<and>
   map_sum id (\<lambda>st. snd (snd st)) (compare_sheets (example_base ! 0) (example_target ! 2) []) =
     Inr [\<lparr>worksheet_name = ''Sheet1'', cell_address = ''A1'', value1 = ''X'', value2 = ''W''\<rparr>,
          \<lparr>worksheet_name = ''Sheet1'', cell_address = ''B1'', value1 = ''Y'', value2 = ''Z''\<rparr>] \<and>
   sheet_grid (example_base ! 3) (example_target ! 1) = [(1, 1), (1, 2), (2, 1), (2, 2)] \<and>
   ws_max_column (example_base ! 3) = 1 \<and> ws_max_column (example_target ! 1) = 2 \<and>
   cell_at (example_base ! 3) 2 2 = \<lparr>row = 2, column = 2, cell_value = PyNone, data_type = TYPE_NULL\<rparr> \<and>
   masked_value (example_base ! 3) (cell_at (example_base ! 3) 2 2) = Inr [] \<and>
   range_contains (merged_cells (example_base ! 0) ! 0) (cell_at (example_base ! 0) 1 1) \<and>
   masked_value (example_base ! 0) (cell_at (example_base ! 0) 1 1) = Inr ''X''"
proof -
  let ?a = "example_base ! 3" and ?b = "example_target ! 1"
  let ?m = "example_base ! 0" and ?n = "example_target ! 2"
  note t = compare_sheets_visits_grid [of ?a ?b "[]" ?a 2 2]
  note u = compare_sheets_visits_grid [of ?m ?n "[]" ?m 1 1]
  have e: "map (\<lambda>rc. \<lparr>worksheet_name = title ?a,
                    cell_address = get_column_letter (snd rc) @ str_nat (fst rc),
                    value1 = cell_text (cell_at ?a (fst rc) (snd rc)),
                    value2 = cell_text (cell_at ?b (fst rc) (snd rc))\<rparr>)
          (filter (\<lambda>rc. cell_text (cell_at ?a (fst rc) (snd rc)) \<noteq>
                          cell_text (cell_at ?b (fst rc) (snd rc)))
             (sheet_grid ?a ?b)) =
      [\<lparr>worksheet_name = ''Data'', cell_address = ''A2'', value1 = ''b'', value2 = ''c''\<rparr>,
       \<lparr>worksheet_name = ''Data'', cell_address = ''B2'', value1 = [], value2 = ''d''\<rparr>]"
    by code_simp
  have f: "map (\<lambda>rc. \<lparr>worksheet_name = title ?m,
                    cell_address = get_column_letter (snd rc) @ str_nat (fst rc),
                    value1 = cell_text (cell_at ?m (fst rc) (snd rc)),
                    value2 = cell_text (cell_at ?n (fst rc) (snd rc))\<rparr>)
          (filter (\<lambda>rc. cell_text (cell_at ?m (fst rc) (snd rc)) \<noteq>
                          cell_text (cell_at ?n (fst rc) (snd rc)))
             (sheet_grid ?m ?n)) =
      [\<lparr>worksheet_name = ''Sheet1'', cell_address = ''A1'', value1 = ''X'', value2 = ''W''\<rparr>,
       \<lparr>worksheet_name = ''Sheet1'', cell_address = ''B1'', value1 = ''Y'', value2 = ''Z''\<rparr>]"
    by code_simp
  have r1: "map_sum id (\<lambda>st. snd (snd st)) (compare_sheets ?a ?b []) =
     Inr [\<lparr>worksheet_name = ''Data'', cell_address = ''A2'', value1 = ''b'', value2 = ''c''\<rparr>,
          \<lparr>worksheet_name = ''Data'', cell_address = ''B2'', value1 = [], value2 = ''d''\<rparr>]"
  proof -
    from t obtain w1 w2 where "compare_sheets ?a ?b [] =
      Inr (w1, w2, [] @
        map (\<lambda>rc. \<lparr>worksheet_name = title ?a,
                    cell_address = get_column_letter (snd rc) @ str_nat (fst rc),
                    value1 = cell_text (cell_at ?a (fst rc) (snd rc)),
                    value2 = cell_text (cell_at ?b (fst rc) (snd rc))\<rparr>)
          (filter (\<lambda>rc. cell_text (cell_at ?a (fst rc) (snd rc)) \<noteq>
                          cell_text (cell_at ?b (fst rc) (snd rc)))
             (sheet_grid ?a ?b)))"
      by blast
    then show ?thesis
      unfolding e by simp
  qed
  have r2: "map_sum id (\<lambda>st. snd (snd st)) (compare_sheets ?m ?n []) =
     Inr [\<lparr>worksheet_name = ''Sheet1'', cell_address = ''A1'', value1 = ''X'', value2 = ''W''\<rparr>,
          \<lparr>worksheet_name = ''Sheet1'', cell_address = ''B1'', value1 = ''Y'', value2 = ''Z''\<rparr>]"
  proof -
    from u obtain w1 w2 where "compare_sheets ?m ?n [] =
      Inr (w1, w2, [] @
        map (\<lambda>rc. \<lparr>worksheet_name = title ?m,
                    cell_address = get_column_letter (snd rc) @ str_nat (fst rc),
                    value1 = cell_text (cell_at ?m (fst rc) (snd rc)),
                    value2 = cell_text (cell_at ?n (fst rc) (snd rc))\<rparr>)
          (filter (\<lambda>rc. cell_text (cell_at ?m (fst rc) (snd rc)) \<noteq>
                          cell_text (cell_at ?n (fst rc) (snd rc)))
             (sheet_grid ?m ?n)))"
      by blast
    then show ?thesis
      unfolding f by simp
  qed
  have g: "sheet_grid ?a ?b = [(1, 1), (1, 2), (2, 1), (2, 2)]"
    by code_simp
  have b: "ws_max_column ?a = 1" "ws_max_column ?b = 2"
    by code_simp+
  have lt: "ws_max_row ?a < 2 \<or> ws_max_column ?a < 2"
    by code_simp
  from t lt have c: "cell_at ?a 2 2 = \<lparr>row = 2, column = 2, cell_value = PyNone, data_type = TYPE_NULL\<rparr>"
    by blast
  have x: "cell_text (cell_at ?a 2 2) = []" "cell_text (cell_at ?m 1 1) = ''X''"
    by code_simp+
  from t x(1) have m1: "masked_value ?a (cell_at ?a 2 2) = Inr []"
    by simp
  from u x(2) have m2: "masked_value ?m (cell_at ?m 1 1) = Inr ''X''"
    by simp
  have i: "range_contains (merged_cells ?m ! 0) (cell_at ?m 1 1)"
    by code_simp
  from r1 r2 g b c m1 m2 i show ?thesis
    by blast
qed

section \<open>The comparison of two workbooks\<close>

text \<open>
  C5. A comparison of two workbooks ends without an error, and its entries are those
  of the compared pairs of sheets, one pair after the other in the sheet order of the
  first workbook. A name of the first workbook gives a compared pair exactly when both
  workbooks have a sheet of that title and neither sheet is in state hidden or
  veryHidden; any other sheet adds no entry. The entries of a pair are what the loops
  over the two sheets give.
\<close>

theorem compare_target_eligible_sheets:
  "(\<exists>w1 w2. compare_target wb1 wb2 =
      Inr (w1, w2, concat (map (\<lambda>p. sheet_differences (fst p) (snd p)) (target_pairs wb1 wb2)))) \<and>
   target_pairs wb1 wb2 = List.map_filter (matched_pair wb1 wb2) (sheetnames wb1) \<and>
   (matched_pair wb1 wb2 name = Some (ws1, ws2)) =
     (find (\<lambda>ws. title ws = name) wb1 = Some ws1 \<and>
      find (\<lambda>ws. title ws = name) wb2 = Some ws2 \<and>
      sheet_state ws1 \<notin> {''hidden'', ''veryHidden''} \<and>
      sheet_state ws2 \<notin> {''hidden'', ''veryHidden''}) \<and>
   (find (\<lambda>ws. title ws = name) wb1 = None) = (name \<notin> set (sheetnames wb1)) \<and>
   (find (\<lambda>ws. title ws = name) wb2 = None) = (name \<notin> set (sheetnames wb2)) \<and>
   (\<exists>w1 w2. compare_sheets a b [] = Inr (w1, w2, sheet_differences a b))"
proof (intro conjI)
  show "\<exists>w1 w2. compare_target wb1 wb2 =
      Inr (w1, w2, concat (map (\<lambda>p. sheet_differences (fst p) (snd p)) (target_pairs wb1 wb2)))"
    using compare_target_outcome [of wb1 wb1 wb2 wb2, OF views_refl views_refl]
    unfolding target_differences_def by blast
next
  show "target_pairs wb1 wb2 = List.map_filter (matched_pair wb1 wb2) (sheetnames wb1)"
    by (simp only: target_pairs_def)
next
  show "(matched_pair wb1 wb2 name = Some (ws1, ws2)) =
     (find (\<lambda>ws. title ws = name) wb1 = Some ws1 \<and>
      find (\<lambda>ws. title ws = name) wb2 = Some ws2 \<and>
      sheet_state ws1 \<notin> {''hidden'', ''veryHidden''} \<and>
      sheet_state ws2 \<notin> {''hidden'', ''veryHidden''})"
    by (auto simp: matched_pair_def is_worksheet_hidden_def split: option.splits)
next
  show "(find (\<lambda>ws. title ws = name) wb1 = None) = (name \<notin> set (sheetnames wb1))"
    by (rule find_title_None)
next
  show "(find (\<lambda>ws. title ws = name) wb2 = None) = (name \<notin> set (sheetnames wb2))"
    by (rule find_title_None)
next
  show "\<exists>w1 w2. compare_sheets a b [] = Inr (w1, w2, sheet_differences a b)"
    using compare_sheets_outcome [of a a b b "[]", OF same_view_refl same_view_refl] by auto
qed

theorem compare_target_eligible_sheets_witness:
  "map_sum id (\<lambda>st. snd (snd st)) (compare_target example_base example_target) =
     Inr [\<lparr>worksheet_name = ''Sheet1'', cell_address = ''A1'', value1 = ''X'', value2 = ''W''\<rparr>,
          \<lparr>worksheet_name = ''Sheet1'', cell_address = ''B1'', value1 = ''Y'', value2 = ''Z''\<rparr>,
          \<lparr>worksheet_name = ''Data'', cell_address = ''A2'', value1 = ''b'', value2 = ''c''\<rparr>,
          \<lparr>worksheet_name = ''Data'', cell_address = ''B2'', value1 = [], value2 = ''d''\<rparr>] \<and>
   sheetnames example_base = [''Sheet1'', ''Only'', ''Hid'', ''Data''] \<and>
   sheetnames example_target = [''Hid'', ''Data'', ''Sheet1''] \<and>
   map sheet_state example_base = [''visible'', ''visible'', ''hidden'', ''visible''] \<and>
   merged_cells (example_base ! 0) \<noteq> [] \<and>
   target_pairs example_base example_target =
     [(example_base ! 0, example_target ! 2), (example_base ! 3, example_target ! 1)] \<and>
   matched_pair example_base example_target ''Data'' = Some (example_base ! 3, example_target ! 1) \<and>
   matched_pair example_base example_target ''Hid'' = None \<and>
   matched_pair example_base example_target ''Only'' = None \<and>
   map_sum id (\<lambda>st. snd (snd st)) (compare_sheets (example_base ! 3) (example_target ! 1) []) =
     Inr [\<lparr>worksheet_name = ''Data'', cell_address = ''A2'', value1 = ''b'', value2 = ''c''\<rparr>,
          \<lparr>worksheet_name = ''Data'', cell_address = ''B2'', value1 = [], value2 = ''d''\<rparr>]"
proof -
  let ?a = "example_base ! 3" and ?b = "example_target ! 1"
  note t = compare_target_eligible_sheets [of example_base example_target "''Data''" ?a ?b ?a ?b]
  have e: "concat (map (\<lambda>p. sheet_differences (fst p) (snd p)) (target_pairs example_base example_target)) =
     [\<lparr>worksheet_name = ''Sheet1'', cell_address = ''A1'', value1 = ''X'', value2 = ''W''\<rparr>,
      \<lparr>worksheet_name = ''Sheet1'', cell_address = ''B1'', value1 = ''Y'', value2 = ''Z''\<rparr>,
      \<lparr>worksheet_name = ''Data'', cell_address = ''A2'', value1 = ''b'', value2 = ''c''\<rparr>,
      \<lparr>worksheet_name = ''Data'', cell_address = ''B2'', value1 = [], value2 = ''d''\<rparr>]"
    by code_simp
  have r: "map_sum id (\<lambda>st. snd (snd st)) (compare_target example_base example_target) =
     Inr [\<lparr>worksheet_name = ''Sheet1'', cell_address = ''A1'', value1 = ''X'', value2 = ''W''\<rparr>,
          \<lparr>worksheet_name = ''Sheet1'', cell_address = ''B1'', value1 = ''Y'', value2 = ''Z''\<rparr>,
          \<lparr>worksheet_name = ''Data'', cell_address = ''A2'', value1 = ''b'', value2 = ''c''\<rparr>,
          \<lparr>worksheet_name = ''Data'', cell_address = ''B2'', value1 = [], value2 = ''d''\<rparr>]"
  proof -
    from t obtain w1 w2 where "compare_target example_base example_target =
      Inr (w1, w2, concat (map (\<lambda>p. sheet_differences (fst p) (snd p))
                             (target_pairs example_base example_target)))"
      by blast
    then show ?thesis
      unfolding e by simp
  qed
  have n: "sheetnames example_base = [''Sheet1'', ''Only'', ''Hid'', ''Data'']"
    "sheetnames example_target = [''Hid'', ''Data'', ''Sheet1'']"
    "map sheet_state example_base = [''visible'', ''visible'', ''hidden'', ''visible'']"
    "merged_cells (example_base ! 0) \<noteq> []"
    by code_simp+
  have p: "target_pairs example_base example_target =
     [(example_base ! 0, example_target ! 2), (example_base ! 3, example_target ! 1)]"
    by code_simp
  have m: "matched_pair example_base example_target ''Data'' = Some (?a, ?b)"
    "matched_pair example_base example_target ''Hid'' = None"
    "matched_pair example_base example_target ''Only'' = None"
    by code_simp+
  have d: "sheet_differences ?a ?b =
     [\<lparr>worksheet_name = ''Data'', cell_address = ''A2'', value1 = ''b'', value2 = ''c''\<rparr>,
      \<lparr>worksheet_name = ''Data'', cell_address = ''B2'', value1 = [], value2 = ''d''\<rparr>]"
    by code_simp
  have s: "map_sum id (\<lambda>st. snd (snd st)) (compare_sheets ?a ?b []) =
     Inr [\<lparr>worksheet_name = ''Data'', cell_address = ''A2'', value1 = ''b'', value2 = ''c''\<rparr>,
          \<lparr>worksheet_name = ''Data'', cell_address = ''B2'', value1 = [], value2 = ''d''\<rparr>]"
  proof -
    from t obtain w1 w2 where "compare_sheets ?a ?b [] = Inr (w1, w2, sheet_differences ?a ?b)"
      by blast
    then show ?thesis
      unfolding d by simp
  qed
  from r n p m s show ?thesis
    by blast
qed

text \<open>
  C7. In the list a comparison ends with, the entries of one pair of sheets are those
  of the differing coordinates of the pair in ascending order of row, then column, each
  with the title of the first sheet and the address of its coordinate; and the pairs
  follow one another in the sheet order of the first workbook.
\<close>

theorem differences_ordered:
  "(\<exists>w1 w2. compare_target wb1 wb2 =
      Inr (w1, w2,
           concat (map (\<lambda>p. map (difference_at (fst p) (snd p))
                                (filter (cell_differs (fst p) (snd p)) (sheet_grid (fst p) (snd p))))
                        (target_pairs wb1 wb2)))) \<and>
   sorted_wrt coordinate_less (filter (cell_differs a b) (sheet_grid a b)) \<and>
   worksheet_name (difference_at a b rc) = title a \<and>
   cell_address (difference_at a b rc) = get_column_letter (snd rc) @ str_nat (fst rc) \<and>
   map (\<lambda>p. title (fst p)) (target_pairs wb1 wb2) =
     filter (\<lambda>name. matched_pair wb1 wb2 name \<noteq> None) (sheetnames wb1)"
proof (intro conjI)
  show "\<exists>w1 w2. compare_target wb1 wb2 =
      Inr (w1, w2,
           concat (map (\<lambda>p. map (difference_at (fst p) (snd p))
                                (filter (cell_differs (fst p) (snd p)) (sheet_grid (fst p) (snd p))))
                        (target_pairs wb1 wb2)))"
    using compare_target_outcome [of wb1 wb1 wb2 wb2, OF views_refl views_refl]
    unfolding target_differences_def sheet_differences_def by blast
next
  show "sorted_wrt coordinate_less (filter (cell_differs a b) (sheet_grid a b))"
    unfolding sheet_grid_def by (intro sorted_wrt_filter sorted_grid)
next
  show "worksheet_name (difference_at a b rc) = title a"
    by (simp add: difference_at_def)
next
  show "cell_address (difference_at a b rc) = get_column_letter (snd rc) @ str_nat (fst rc)"
    by (simp add: difference_at_def coordinate_def column_letter_def cell_at_row_column)
next
  show "map (\<lambda>p. title (fst p)) (target_pairs wb1 wb2) =
     filter (\<lambda>name. matched_pair wb1 wb2 name \<noteq> None) (sheetnames wb1)"
    unfolding target_pairs_def by (rule target_pairs_titles)
qed

theorem differences_ordered_witness:
  "map_sum id (\<lambda>st. map (\<lambda>d. (worksheet_name d, cell_address d)) (snd (snd st)))
     (compare_target example_base example_target) =
     Inr [(''Sheet1'', ''A1''), (''Sheet1'', ''B1''), (''Data'', ''A2''), (''Data'', ''B2'')] \<and>
   sheetnames example_base = [''Sheet1'', ''Only'', ''Hid'', ''Data''] \<and>
   sheetnames example_target = [''Hid'', ''Data'', ''Sheet1''] \<and>
   map (\<lambda>p. title (fst p)) (target_pairs example_base example_target) = [''Sheet1'', ''Data''] \<and>
   merged_cells (example_base ! 0) \<noteq> [] \<and>
   filter (cell_differs (example_base ! 0) (example_target ! 2))
     (sheet_grid (example_base ! 0) (example_target ! 2)) = [(1, 1), (1, 2)] \<and>
   filter (cell_differs (example_base ! 3) (example_target ! 1))
     (sheet_grid (example_base ! 3) (example_target ! 1)) = [(2, 1), (2, 2)] \<and>
   sorted_wrt coordinate_less
     (filter (cell_differs (example_base ! 3) (example_target ! 1))
        (sheet_grid (example_base ! 3) (example_target ! 1))) \<and>
   difference_at (example_base ! 3) (example_target ! 1) (2, 2) =
     \<lparr>worksheet_name = ''Data'', cell_address = ''B2'', value1 = [], value2 = ''d''\<rparr>"
proof -
  let ?a = "example_base ! 3" and ?b = "example_target ! 1"
  note t = differences_ordered [of example_base example_target ?a ?b "(2, 2)"]
  have e: "map (\<lambda>d. (worksheet_name d, cell_address d))
       (concat (map (\<lambda>p. map (difference_at (fst p) (snd p))
                                (filter (cell_differs (fst p) (snd p)) (sheet_grid (fst p) (snd p))))
                        (target_pairs example_base example_target))) =
     [(''Sheet1'', ''A1''), (''Sheet1'', ''B1''), (''Data'', ''A2''), (''Data'', ''B2'')]"
    by code_simp
  have r: "map_sum id (\<lambda>st. map (\<lambda>d. (worksheet_name d, cell_address d)) (snd (snd st)))
     (compare_target example_base example_target) =
     Inr [(''Sheet1'', ''A1''), (''Sheet1'', ''B1''), (''Data'', ''A2''), (''Data'', ''B2'')]"
  proof -
    from t obtain w1 w2 where "compare_target example_base example_target =
      Inr (w1, w2,
           concat (map (\<lambda>p. map (difference_at (fst p) (snd p))
                                (filter (cell_differs (fst p) (snd p)) (sheet_grid (fst p) (snd p))))
                        (target_pairs example_base example_target)))"
      by blast
    then show ?thesis
      using e by simp
  qed
  have n: "sheetnames example_base = [''Sheet1'', ''Only'', ''Hid'', ''Data'']"
    "sheetnames example_target = [''Hid'', ''Data'', ''Sheet1'']"
    "merged_cells (example_base ! 0) \<noteq> []"
    by code_simp+
  have f: "filter (\<lambda>name. matched_pair example_base example_target name \<noteq> None) (sheetnames example_base) =
      [''Sheet1'', ''Data'']"
    by code_simp
  from t f have p: "map (\<lambda>p. title (fst p)) (target_pairs example_base example_target) = [''Sheet1'', ''Data'']"
    by simp
  have g: "filter (cell_differs (example_base ! 0) (example_target ! 2))
     (sheet_grid (example_base ! 0) (example_target ! 2)) = [(1, 1), (1, 2)]"
    "filter (cell_differs ?a ?b) (sheet_grid ?a ?b) = [(2, 1), (2, 2)]"
    by code_simp+
  from t have s: "sorted_wrt coordinate_less (filter (cell_differs ?a ?b) (sheet_grid ?a ?b))"
    by blast
  have d: "difference_at ?a ?b (2, 2) =
     \<lparr>worksheet_name = ''Data'', cell_address = ''B2'', value1 = [], value2 = ''d''\<rparr>"
    by code_simp
  from r n p g s d show ?thesis
    by blast
qed

section \<open>What is saved\<close>

text \<open>
  C8. Nothing is saved for a target whose list of differences is empty. For a list
  that is not empty a workbook is saved under the name diff_<stem of the first
  path>_<stem of the target path>.xlsx; its sheet is titled "Differences", row 1 holds
  "Sheet", "Cell" and the two value headers, and row i + 2 holds the four fields of
  entry i (counted from 0) in columns 1 to 4, in the order of the list. A run of
  \<open>main\<close> ends without an error and saves, for each target in turn, what this gives
  for the list of that target compared with the first workbook as loaded.
\<close>

theorem report_written:
  "write_report stem1 stem2 [] = None \<and>
   (ds \<noteq> [] \<longrightarrow>
      (\<exists>a. write_report stem1 stem2 ds = Some a \<and>
         file_name a = ''diff_'' @ stem1 @ ''_'' @ stem2 @ ''.xlsx'' \<and>
         sheet_title a = ''Differences'' \<and>
         written a (1, 1) = Some ''Sheet'' \<and> written a (1, 2) = Some ''Cell'' \<and>
         written a (1, 3) = Some (stem1 @ '' Value'') \<and>
         written a (1, 4) = Some (stem2 @ '' Value'') \<and>
         (\<forall>i < length ds.
            written a (i + 2, 1) = Some (worksheet_name (ds ! i)) \<and>
            written a (i + 2, 2) = Some (cell_address (ds ! i)) \<and>
            written a (i + 2, 3) = Some (value1 (ds ! i)) \<and>
            written a (i + 2, 4) = Some (value2 (ds ! i))))) \<and>
   (\<exists>wb1'. fst (main stem1 wb1 targets) = Inr wb1') \<and>
   snd (main stem1 wb1 targets) =
     List.map_filter
       (\<lambda>t. case compare_target wb1 (target_workbook t) of
               Inl e \<Rightarrow> None
             | Inr st \<Rightarrow> write_report stem1 (target_stem t) (snd (snd st)))
       targets"
proof (intro conjI impI)
  show "write_report stem1 stem2 [] = None"
    by (simp add: write_report_def)
next
  assume ne: "ds \<noteq> []"
  let ?h = "Map.empty((1, 1) \<mapsto> ''Sheet'', (1, 2) \<mapsto> ''Cell'',
                      (1, 3) \<mapsto> stem1 @ '' Value'', (1, 4) \<mapsto> stem2 @ '' Value'')"
  let ?a = "\<lparr>file_name = ''diff_'' @ stem1 @ ''_'' @ stem2 @ ''.xlsx'',
            sheet_title = ''Differences'',
            written = fold write_difference (enumerate 2 ds) ?h\<rparr>"
  have w: "write_report stem1 stem2 ds = Some ?a"
    using ne by (simp add: write_report_def)
  have rows: "\<forall>i < length ds.
            written ?a (i + 2, 1) = Some (worksheet_name (ds ! i)) \<and>
            written ?a (i + 2, 2) = Some (cell_address (ds ! i)) \<and>
            written ?a (i + 2, 3) = Some (value1 (ds ! i)) \<and>
            written ?a (i + 2, 4) = Some (value2 (ds ! i))"
    using written_row [of _ ds 2 ?h] by (simp add: add.commute)
  have h1: "written ?a (1, 1) = Some ''Sheet''" "written ?a (1, 2) = Some ''Cell''"
    "written ?a (1, 3) = Some (stem1 @ '' Value'')" "written ?a (1, 4) = Some (stem2 @ '' Value'')"
    by (simp_all add: written_rows_above)
  have n: "file_name ?a = ''diff_'' @ stem1 @ ''_'' @ stem2 @ ''.xlsx''" "sheet_title ?a = ''Differences''"
    by simp_all
  show "\<exists>a. write_report stem1 stem2 ds = Some a \<and>
         file_name a = ''diff_'' @ stem1 @ ''_'' @ stem2 @ ''.xlsx'' \<and>
         sheet_title a = ''Differences'' \<and>
         written a (1, 1) = Some ''Sheet'' \<and> written a (1, 2) = Some ''Cell'' \<and>
         written a (1, 3) = Some (stem1 @ '' Value'') \<and>
         written a (1, 4) = Some (stem2 @ '' Value'') \<and>
         (\<forall>i < length ds.
            written a (i + 2, 1) = Some (worksheet_name (ds ! i)) \<and>
            written a (i + 2, 2) = Some (cell_address (ds ! i)) \<and>
            written a (i + 2, 3) = Some (value1 (ds ! i)) \<and>
            written a (i + 2, 4) = Some (value2 (ds ! i)))"
    using w h1 n rows by blast
next
  show "\<exists>wb1'. fst (main stem1 wb1 targets) = Inr wb1'"
    using main_targets_outcome [of wb1 wb1 stem1 targets "[]", OF views_refl]
    by (auto simp: main_def)
next
  have each: "(\<lambda>t. case compare_target wb1 (target_workbook t) of
               Inl e \<Rightarrow> None
             | Inr st \<Rightarrow> write_report stem1 (target_stem t) (snd (snd st))) =
      (\<lambda>t. write_report stem1 (target_stem t) (target_differences wb1 (target_workbook t)))"
  proof (rule ext)
    fix t
    obtain w1 w2 where "compare_target wb1 (target_workbook t) =
        Inr (w1, w2, target_differences wb1 (target_workbook t))"
      using compare_target_outcome [of wb1 wb1 "target_workbook t" "target_workbook t",
          OF views_refl views_refl] by blast
    then show "(case compare_target wb1 (target_workbook t) of
               Inl e \<Rightarrow> None
             | Inr st \<Rightarrow> write_report stem1 (target_stem t) (snd (snd st))) =
      write_report stem1 (target_stem t) (target_differences wb1 (target_workbook t))"
      by simp
  qed
  show "snd (main stem1 wb1 targets) =
     List.map_filter
       (\<lambda>t. case compare_target wb1 (target_workbook t) of
               Inl e \<Rightarrow> None
             | Inr st \<Rightarrow> write_report stem1 (target_stem t) (snd (snd st)))
       targets"
    unfolding each
    using main_targets_outcome [of wb1 wb1 stem1 targets "[]", OF views_refl]
    by (auto simp: main_def)
qed

theorem report_written_witness:
  "map_sum id (\<lambda>st. snd (snd st)) (compare_target example_base example_target) =
     Inr [\<lparr>worksheet_name = ''Sheet1'', cell_address = ''A1'', value1 = ''X'', value2 = ''W''\<rparr>,
          \<lparr>worksheet_name = ''Sheet1'', cell_address = ''B1'', value1 = ''Y'', value2 = ''Z''\<rparr>,
          \<lparr>worksheet_name = ''Data'', cell_address = ''A2'', value1 = ''b'', value2 = ''c''\<rparr>,
          \<lparr>worksheet_name = ''Data'', cell_address = ''B2'', value1 = [], value2 = ''d''\<rparr>] \<and>
   (\<exists>a. write_report ''base'' ''new''
           [\<lparr>worksheet_name = ''Sheet1'', cell_address = ''A1'', value1 = ''X'', value2 = ''W''\<rparr>,
            \<lparr>worksheet_name = ''Sheet1'', cell_address = ''B1'', value1 = ''Y'', value2 = ''Z''\<rparr>,
            \<lparr>worksheet_name = ''Data'', cell_address = ''A2'', value1 = ''b'', value2 = ''c''\<rparr>,
            \<lparr>worksheet_name = ''Data'', cell_address = ''B2'', value1 = [], value2 = ''d''\<rparr>] = Some a \<and>
      file_name a = ''diff_base_new.xlsx'' \<and> sheet_title a = ''Differences'' \<and>
      written a (1, 1) = Some ''Sheet'' \<and> written a (1, 2) = Some ''Cell'' \<and>
      written a (1, 3) = Some ''base Value'' \<and> written a (1, 4) = Some ''new Value'' \<and>
      written a (2, 1) = Some ''Sheet1'' \<and> written a (2, 2) = Some ''A1'' \<and>
      written a (2, 3) = Some ''X'' \<and> written a (2, 4) = Some ''W'' \<and>
      written a (5, 1) = Some ''Data'' \<and> written a (5, 2) = Some ''B2'' \<and>
      written a (5, 3) = Some [] \<and> written a (5, 4) = Some ''d'') \<and>
   map_sum id (\<lambda>st. snd (snd st)) (compare_target example_base example_base) = Inr [] \<and>
   isl (fst (main ''base'' example_base
     [\<lparr>target_stem = ''same'', target_workbook = example_base\<rparr>,
      \<lparr>target_stem = ''new'', target_workbook = example_target\<rparr>])) = False \<and>
   map file_name (snd (main ''base'' example_base
     [\<lparr>target_stem = ''same'', target_workbook = example_base\<rparr>,
      \<lparr>target_stem = ''new'', target_workbook = example_target\<rparr>])) = [''diff_base_new.xlsx'']"
proof -
  let ?ds = "[\<lparr>worksheet_name = ''Sheet1'', cell_address = ''A1'', value1 = ''X'', value2 = ''W''\<rparr>,
              \<lparr>worksheet_name = ''Sheet1'', cell_address = ''B1'', value1 = ''Y'', value2 = ''Z''\<rparr>,
              \<lparr>worksheet_name = ''Data'', cell_address = ''A2'', value1 = ''b'', value2 = ''c''\<rparr>,
              \<lparr>worksheet_name = ''Data'', cell_address = ''B2'', value1 = [], value2 = ''d''\<rparr>]"
  let ?ts = "[\<lparr>target_stem = ''same'', target_workbook = example_base\<rparr>,
      \<lparr>target_stem = ''new'', target_workbook = example_target\<rparr>]"
  note t = report_written [of "''base''" "''new''" ?ds example_base ?ts]
  have c1: "map_sum id (\<lambda>st. snd (snd st)) (compare_target example_base example_target) = Inr ?ds"
    by code_simp
  have c2: "map_sum id (\<lambda>st. snd (snd st)) (compare_target example_base example_base) = Inr []"
    by code_simp
  have files: "map file_name (List.map_filter
       (\<lambda>t. case compare_target example_base (target_workbook t) of
               Inl e \<Rightarrow> None
             | Inr st \<Rightarrow> write_report ''base'' (target_stem t) (snd (snd st))) ?ts) =
      [''diff_base_new.xlsx'']"
    by code_simp
  have ne: "?ds \<noteq> []"
    by simp
  from t ne obtain a where a: "write_report ''base'' ''new'' ?ds = Some a"
    "file_name a = ''diff_'' @ ''base'' @ ''_'' @ ''new'' @ ''.xlsx''" "sheet_title a = ''Differences''"
    "written a (1, 1) = Some ''Sheet''" "written a (1, 2) = Some ''Cell''"
    "written a (1, 3) = Some (''base'' @ '' Value'')" "written a (1, 4) = Some (''new'' @ '' Value'')"
    "\<forall>i < length ?ds.
            written a (i + 2, 1) = Some (worksheet_name (?ds ! i)) \<and>
            written a (i + 2, 2) = Some (cell_address (?ds ! i)) \<and>
            written a (i + 2, 3) = Some (value1 (?ds ! i)) \<and>
            written a (i + 2, 4) = Some (value2 (?ds ! i))"
    by blast
  have row0: "written a (2, 1) = Some ''Sheet1'' \<and> written a (2, 2) = Some ''A1'' \<and>
      written a (2, 3) = Some ''X'' \<and> written a (2, 4) = Some ''W''"
    using a(8) [rule_format, of 0] by (simp add: numeral_2_eq_2)
  have row3: "written a (5, 1) = Some ''Data'' \<and> written a (5, 2) = Some ''B2'' \<and>
      written a (5, 3) = Some [] \<and> written a (5, 4) = Some ''d''"
    using a(8) [rule_format, of 3] by simp
  have w: "\<exists>a. write_report ''base'' ''new'' ?ds = Some a \<and>
      file_name a = ''diff_base_new.xlsx'' \<and> sheet_title a = ''Differences'' \<and>
      written a (1, 1) = Some ''Sheet'' \<and> written a (1, 2) = Some ''Cell'' \<and>
      written a (1, 3) = Some ''base Value'' \<and> written a (1, 4) = Some ''new Value'' \<and>
      written a (2, 1) = Some ''Sheet1'' \<and> written a (2, 2) = Some ''A1'' \<and>
      written a (2, 3) = Some ''X'' \<and> written a (2, 4) = Some ''W'' \<and>
      written a (5, 1) = Some ''Data'' \<and> written a (5, 2) = Some ''B2'' \<and>
      written a (5, 3) = Some [] \<and> written a (5, 4) = Some ''d''"
    using a(1-7) row0 row3 by auto
  from t obtain wb1' where "fst (main ''base'' example_base ?ts) = Inr wb1'"
    by blast
  then have m: "isl (fst (main ''base'' example_base ?ts)) = False"
    by simp
  have f: "map file_name (snd (main ''base'' example_base ?ts)) = [''diff_base_new.xlsx'']"
    using t files by simp
  from c1 w c2 m f show ?thesis
    by blast
qed

section \<open>Earlier comparisons leave a comparison unchanged\<close>

text \<open>
  C9. The entries of a comparison are a function of the two workbooks as loaded. The
  loop over the targets ends without an error, and the first workbook as the earlier
  rounds of the loop have left it, with the cells that their lookups created, gives the
  same list against a target as the first workbook as loaded. The same comparison run
  again on the two workbooks as the first run has left them gives the same list.
\<close>

theorem comparison_independent_of_earlier_targets:
  "(\<exists>wb1'. fst (main stem1 wb1 earlier) = Inr wb1' \<and>
      map_sum id (\<lambda>st. snd (snd st)) (compare_target wb1' wb2) =
      map_sum id (\<lambda>st. snd (snd st)) (compare_target wb1 wb2)) \<and>
   (\<exists>w1 w2 ds. compare_target wb1 wb2 = Inr (w1, w2, ds) \<and>
      (\<exists>u1 u2. compare_target w1 w2 = Inr (u1, u2, ds)))"
proof (intro conjI)
  obtain w where m: "fst (main stem1 wb1 earlier) = Inr w" and v: "list_all2 same_view wb1 w"
    using main_targets_outcome [of wb1 wb1 stem1 earlier "[]", OF views_refl]
    by (auto simp: main_def)
  obtain a1 a2 where a: "compare_target w wb2 = Inr (a1, a2, target_differences wb1 wb2)"
    using compare_target_outcome [of wb1 w wb2 wb2, OF v views_refl] by blast
  obtain b1 b2 where b: "compare_target wb1 wb2 = Inr (b1, b2, target_differences wb1 wb2)"
    using compare_target_outcome [of wb1 wb1 wb2 wb2, OF views_refl views_refl] by blast
  show "\<exists>wb1'. fst (main stem1 wb1 earlier) = Inr wb1' \<and>
      map_sum id (\<lambda>st. snd (snd st)) (compare_target wb1' wb2) =
      map_sum id (\<lambda>st. snd (snd st)) (compare_target wb1 wb2)"
    using m a b by simp
next
  obtain w1 w2 where r: "compare_target wb1 wb2 = Inr (w1, w2, target_differences wb1 wb2)"
    and v: "list_all2 same_view wb1 w1" "list_all2 same_view wb2 w2"
    using compare_target_outcome [of wb1 wb1 wb2 wb2, OF views_refl views_refl] by blast
  obtain u1 u2 where "compare_target w1 w2 = Inr (u1, u2, target_differences wb1 wb2)"
    using compare_target_outcome [of wb1 w1 wb2 w2, OF v] by blast
  then show "\<exists>w1 w2 ds. compare_target wb1 wb2 = Inr (w1, w2, ds) \<and>
      (\<exists>u1 u2. compare_target w1 w2 = Inr (u1, u2, ds))"
    using r by blast
qed

theorem comparison_independent_of_earlier_targets_witness:
  "map (\<lambda>ws. length (cells ws)) example_base = [10, 1, 1, 2] \<and>
   map_sum id (map (\<lambda>ws. length (cells ws)))
     (fst (main ''base'' example_base
        [\<lparr>target_stem = ''wide'',
          target_workbook =
            [plain_sheet ''Sheet1'' [((1, 1), (PyStr ''X'', ''s'')), ((4, 9), (PyStr ''z'', ''s''))],
             plain_sheet ''Data'' [((3, 3), (PyStr ''y'', ''s''))]]\<rparr>])) = Inr [36, 1, 1, 9] \<and>
   (\<exists>wb1'. fst (main ''base'' example_base
        [\<lparr>target_stem = ''wide'',
          target_workbook =
            [plain_sheet ''Sheet1'' [((1, 1), (PyStr ''X'', ''s'')), ((4, 9), (PyStr ''z'', ''s''))],
             plain_sheet ''Data'' [((3, 3), (PyStr ''y'', ''s''))]]\<rparr>]) = Inr wb1' \<and>
      map_sum id (\<lambda>st. snd (snd st)) (compare_target wb1' example_target) =
        Inr [\<lparr>worksheet_name = ''Sheet1'', cell_address = ''A1'', value1 = ''X'', value2 = ''W''\<rparr>,
             \<lparr>worksheet_name = ''Sheet1'', cell_address = ''B1'', value1 = ''Y'', value2 = ''Z''\<rparr>,
             \<lparr>worksheet_name = ''Data'', cell_address = ''A2'', value1 = ''b'', value2 = ''c''\<rparr>,
             \<lparr>worksheet_name = ''Data'', cell_address = ''B2'', value1 = [], value2 = ''d''\<rparr>]) \<and>
   map_sum id (\<lambda>st. snd (snd st)) (compare_target example_base example_target) =
     Inr [\<lparr>worksheet_name = ''Sheet1'', cell_address = ''A1'', value1 = ''X'', value2 = ''W''\<rparr>,
          \<lparr>worksheet_name = ''Sheet1'', cell_address = ''B1'', value1 = ''Y'', value2 = ''Z''\<rparr>,
          \<lparr>worksheet_name = ''Data'', cell_address = ''A2'', value1 = ''b'', value2 = ''c''\<rparr>,
          \<lparr>worksheet_name = ''Data'', cell_address = ''B2'', value1 = [], value2 = ''d''\<rparr>] \<and>
   (\<exists>w1 w2 ds. compare_target example_base example_target = Inr (w1, w2, ds) \<and>
      (\<exists>u1 u2. compare_target w1 w2 = Inr (u1, u2, ds)))"
proof -
  let ?earlier = "[\<lparr>target_stem = ''wide'',
          target_workbook =
            [plain_sheet ''Sheet1'' [((1, 1), (PyStr ''X'', ''s'')), ((4, 9), (PyStr ''z'', ''s''))],
             plain_sheet ''Data'' [((3, 3), (PyStr ''y'', ''s''))]]\<rparr>]"
  let ?ds = "[\<lparr>worksheet_name = ''Sheet1'', cell_address = ''A1'', value1 = ''X'', value2 = ''W''\<rparr>,
              \<lparr>worksheet_name = ''Sheet1'', cell_address = ''B1'', value1 = ''Y'', value2 = ''Z''\<rparr>,
              \<lparr>worksheet_name = ''Data'', cell_address = ''A2'', value1 = ''b'', value2 = ''c''\<rparr>,
              \<lparr>worksheet_name = ''Data'', cell_address = ''B2'', value1 = [], value2 = ''d''\<rparr>]"
  note t = comparison_independent_of_earlier_targets [of "''base''" example_base ?earlier example_target]
  have n: "map (\<lambda>ws. length (cells ws)) example_base = [10, 1, 1, 2]"
    by code_simp
  have g: "map_sum id (map (\<lambda>ws. length (cells ws))) (fst (main ''base'' example_base ?earlier)) =
      Inr [36, 1, 1, 9]"
    by code_simp
  have c: "map_sum id (\<lambda>st. snd (snd st)) (compare_target example_base example_target) = Inr ?ds"
    by code_simp
  from t obtain wb1' where "fst (main ''base'' example_base ?earlier) = Inr wb1'"
    "map_sum id (\<lambda>st. snd (snd st)) (compare_target wb1' example_target) =
     map_sum id (\<lambda>st. snd (snd st)) (compare_target example_base example_target)"
    by blast
  then have e: "\<exists>wb1'. fst (main ''base'' example_base ?earlier) = Inr wb1' \<and>
      map_sum id (\<lambda>st. snd (snd st)) (compare_target wb1' example_target) = Inr ?ds"
    using c by simp
  from t have again: "\<exists>w1 w2 ds. compare_target example_base example_target = Inr (w1, w2, ds) \<and>
      (\<exists>u1 u2. compare_target w1 w2 = Inr (u1, u2, ds))"
    by blast
  from n g e c again show ?thesis
    by blast
qed

end
